theory Spec2Isabelle
  imports Main "HOL-Library.AList" "HOL-Library.Sublist" "HOL-Library.Multiset"
begin

section \<open>JavaScript values and strings\<close>

text \<open>
  A JavaScript string is a sequence of UTF-16 code units. The model uses \<open>string\<close>, whose
  characters stand for the code units below 256 (ASCII and Latin-1); code units above that
  range are outside the model. Numbers are doubles; the two kinds of number the program
  handles are modelled by the integers they are. The id counter runs through
  \<open>0, 1, \<dots>, 2 ^ 53\<close>, all of which a double holds exactly, and its increment is
  modelled with the rounding it has at the end of that range. The results of \<open>parseInt\<close>
  matter to the program only between 18 and 200.
\<close>

datatype jsval = Undefined | NaN | Num int | Str string

text \<open>
  White space as \<open>String.prototype.trim\<close> and the regular expression class \<open>\s\<close> see it
  in the modelled range: tab, line feed, vertical tab, form feed, carriage return, space and
  the no-break space.
\<close>

definition isWhiteSpace :: "char \<Rightarrow> bool" where
  "isWhiteSpace c = (of_char c \<in> {9, 10, 11, 12, 13, 32, 160 :: nat})"

definition trim :: "string \<Rightarrow> string" where
  "trim s = rev (dropWhile isWhiteSpace (rev (dropWhile isWhiteSpace s)))"

definition toLowerCaseChar :: "char \<Rightarrow> char" where
  "toLowerCaseChar c =
     (let n = of_char c :: nat in
      if (65 \<le> n \<and> n \<le> 90) \<or> (192 \<le> n \<and> n \<le> 222 \<and> n \<noteq> 215)
      then char_of (n + 32) else c)"

definition toLowerCase :: "string \<Rightarrow> string" where
  "toLowerCase s = map toLowerCaseChar s"

text \<open>\<open>s.includes(t)\<close>: \<open>t\<close> occurs in \<open>s\<close> as a contiguous run, searched from the left.\<close>

fun includes_js :: "string \<Rightarrow> string \<Rightarrow> bool" where
  "includes_js [] t = (t = [])"
| "includes_js (c # s) t = (prefix t (c # s) \<or> includes_js s t)"

text \<open>Decimal notation of a natural number, and its inverse on digit strings.\<close>

definition digit :: "nat \<Rightarrow> char" where
  "digit d = char_of (48 + d)"

fun digits :: "nat \<Rightarrow> string" where
  "digits n = (if n < 10 then [digit n] else digits (n div 10) @ [digit (n mod 10)])"

declare digits.simps [simp del]

definition digits_val :: "string \<Rightarrow> nat" where
  "digits_val s = foldl (\<lambda>a c. 10 * a + (of_char c - 48)) 0 s"

text \<open>\<open>String(n)\<close> for an integral number.\<close>

definition numberToString :: "int \<Rightarrow> string" where
  "numberToString i = (if i < 0 then CHR ''-'' # digits (nat (- i)) else digits (nat i))"

text \<open>
  Every property access \<open>o[v]\<close> converts \<open>v\<close> to a property key, a string: the number
  \<open>0\<close> and the string \<open>"0"\<close> name the same property.
\<close>

fun toPropertyKey :: "jsval \<Rightarrow> string" where
  "toPropertyKey Undefined = ''undefined''"
| "toPropertyKey NaN = ''NaN''"
| "toPropertyKey (Num i) = numberToString i"
| "toPropertyKey (Str s) = s"

section \<open>storages/usersStorage.js\<close>

text \<open>
  The object literal \<open>{ id, firstName, lastName, email, age, bio }\<close>. The argument of
  \<open>addUser\<close> and \<open>updateUser\<close> is destructured into the five fields, so a member it does
  not have arrives as \<open>undefined\<close>.
\<close>

record fields =
  firstName :: jsval
  lastName :: jsval
  email :: jsval
  age :: jsval
  bio :: jsval

record user = fields +
  id' :: jsval

definition mk_user :: "jsval \<Rightarrow> 'a fields_scheme \<Rightarrow> user" where
  "mk_user i f = \<lparr>firstName = firstName f, lastName = lastName f, email = email f,
     age = age f, bio = bio f, id' = i\<rparr>"

text \<open>
  The class instance. \<open>this.storage\<close> is an ordinary object created by \<open>{}\<close>, used as a
  dictionary: \<open>storage\<close> lists its own properties in the order of their creation, and
  \<open>proto\<close> is the object it inherits from, \<open>None\<close> for \<open>Object.prototype\<close> (the state
  after the constructor) and \<open>Some r\<close> once an assignment to the key \<open>__proto__\<close> has made
  the record \<open>r\<close> its prototype. \<open>this_id\<close> is the counter \<open>this.id\<close>.
\<close>

record usersStorage =
  storage :: "(string \<times> user) list"
  proto :: "user option"
  this_id :: nat

text \<open>What a property read can return: a primitive value, a record, or a built-in object.\<close>

datatype lookup = Value jsval | Rec user | ObjectPrototype | Function string

definition constructor :: usersStorage where
  "constructor = \<lparr>storage = [], proto = None, this_id = 0\<rparr>"

text \<open>
  The function-valued members of \<open>Object.prototype\<close>; its one accessor, \<open>__proto__\<close>, is
  treated apart.
\<close>

definition objectPrototype_names :: "string list" where
  "objectPrototype_names =
     [''constructor'', ''__defineGetter__'', ''__defineSetter__'', ''hasOwnProperty'',
      ''__lookupGetter__'', ''__lookupSetter__'', ''isPrototypeOf'',
      ''propertyIsEnumerable'', ''toString'', ''valueOf'', ''toLocaleString'']"

text \<open>The own properties of a record object.\<close>

definition user_own :: "user \<Rightarrow> string \<rightharpoonup> jsval" where
  "user_own r k =
     (if k = ''id'' then Some (id' r)
      else if k = ''firstName'' then Some (firstName r)
      else if k = ''lastName'' then Some (lastName r)
      else if k = ''email'' then Some (email r)
      else if k = ''age'' then Some (age r)
      else if k = ''bio'' then Some (bio r)
      else None)"

text \<open>
  A read from \<open>Object.prototype\<close> on behalf of the storage object, whose prototype is \<open>p\<close>:
  the getter of \<open>__proto__\<close> returns that prototype.
\<close>

definition objectPrototype_get :: "user option \<Rightarrow> string \<Rightarrow> lookup" where
  "objectPrototype_get p k =
     (if k = ''__proto__'' then (case p of None \<Rightarrow> ObjectPrototype | Some r \<Rightarrow> Rec r)
      else if k \<in> set objectPrototype_names then Function k
      else Value Undefined)"

text \<open>
  \<open>this.storage[k]\<close> as a read: the own property, else the prototype chain. A missing
  property reads as \<open>undefined\<close>.
\<close>

definition storage_get :: "usersStorage \<Rightarrow> string \<Rightarrow> lookup" where
  "storage_get s k =
     (case map_of (storage s) k of
        Some u \<Rightarrow> Rec u
      | None \<Rightarrow>
          (case proto s of
             None \<Rightarrow> objectPrototype_get None k
           | Some r \<Rightarrow>
               (case user_own r k of
                  Some v \<Rightarrow> Value v
                | None \<Rightarrow> objectPrototype_get (Some r) k)))"

text \<open>
  \<open>this.storage[k] = u\<close> as a write: an own property is overwritten in place; without
  one, the key \<open>__proto__\<close> reaches the setter inherited from \<open>Object.prototype\<close>, which
  replaces the prototype and creates no property, and every other key creates the property
  last.
\<close>

definition storage_set :: "string \<Rightarrow> user \<Rightarrow> usersStorage \<Rightarrow> usersStorage" where
  "storage_set k u s =
     (if k = ''__proto__'' \<and> map_of (storage s) k = None then s\<lparr>proto := Some u\<rparr>
      else s\<lparr>storage := AList.update k u (storage s)\<rparr>)"

text \<open>
  \<open>this.id++\<close> on a double: below \<open>2 ^ 53\<close> the successor is exact; at \<open>2 ^ 53\<close>
  the sum \<open>2 ^ 53 + 1\<close> is not representable and rounds back to \<open>2 ^ 53\<close>, so the
  counter stays where it is.
\<close>

definition postIncrement :: "nat \<Rightarrow> nat" where
  "postIncrement n = (if n < 9007199254740992 then n + 1 else n)"

definition addUser :: "'a fields_scheme \<Rightarrow> usersStorage \<Rightarrow> usersStorage" where
  "addUser f s =
     (let i = Num (int (this_id s));
          s' = storage_set (toPropertyKey i) (mk_user i f) s
      in s'\<lparr>this_id := postIncrement (this_id s)\<rparr>)"

text \<open>
  An array index is the canonical decimal string of a number below \<open>2 ^ 32 - 1\<close>.
  \<open>Object.values\<close> enumerates the own properties whose keys are array indices first, in
  ascending numeric order, and then the others in the order of their creation.
\<close>

definition isArrayIndex :: "string \<Rightarrow> bool" where
  "isArrayIndex k = (digits (digits_val k) = k \<and> digits_val k < 4294967295)"

definition ownPropertyOrder :: "(string \<times> 'v) list \<Rightarrow> (string \<times> 'v) list" where
  "ownPropertyOrder ps =
     sort_key (\<lambda>p. digits_val (fst p)) (filter (\<lambda>p. isArrayIndex (fst p)) ps)
     @ filter (\<lambda>p. \<not> isArrayIndex (fst p)) ps"

definition getUsers :: "usersStorage \<Rightarrow> user list" where
  "getUsers s = map snd (ownPropertyOrder (storage s))"

definition getUser :: "jsval \<Rightarrow> usersStorage \<Rightarrow> lookup" where
  "getUser i s = storage_get s (toPropertyKey i)"

definition updateUser :: "jsval \<Rightarrow> 'a fields_scheme \<Rightarrow> usersStorage \<Rightarrow> usersStorage" where
  "updateUser i f s = storage_set (toPropertyKey i) (mk_user i f) s"

text \<open>
  \<open>delete this.storage[k]\<close> removes an own property and does nothing, without an error,
  when there is none; inherited properties are never affected.
\<close>

definition deleteUser :: "jsval \<Rightarrow> usersStorage \<Rightarrow> usersStorage" where
  "deleteUser i s = s\<lparr>storage := AList.delete (toPropertyKey i) (storage s)\<rparr>"

section \<open>The validation library\<close>

text \<open>
  The controller validates with the packages express-validator and validator.js, which are
  not part of the repository. This section models the functions the controller calls, by
  their published behaviour: the standard sanitizers and validators receive the field's
  value converted to a string, sanitizers replace the field's value, and a validator that
  fails records an error with the message attached to it by \<open>withMessage\<close>, without
  stopping the chain. The syntax check of \<open>isEmail\<close> is left open: it is a parameter of
  everything below.
\<close>

datatype error = TypeError

text \<open>The conversion applied before a standard sanitizer or validator runs.\<close>

fun toString :: "jsval \<Rightarrow> string" where
  "toString Undefined = []"
| "toString NaN = []"
| "toString (Num i) = numberToString i"
| "toString (Str s) = s"

definition isDigit :: "char \<Rightarrow> bool" where
  "isDigit c = (48 \<le> (of_char c :: nat) \<and> (of_char c :: nat) \<le> 57)"

definition isLetter :: "char \<Rightarrow> bool" where
  "isLetter c = (let n = of_char c :: nat in (65 \<le> n \<and> n \<le> 90) \<or> (97 \<le> n \<and> n \<le> 122))"

text \<open>\<open>isAlpha\<close> with the default locale: the pattern \<open>/^[A-Z]+$/i\<close>.\<close>

definition isAlpha :: "string \<Rightarrow> bool" where
  "isAlpha s = (s \<noteq> [] \<and> list_all isLetter s)"

text \<open>\<open>isLength({ min, max })\<close>; a missing \<open>min\<close> is 0.\<close>

definition isLength :: "nat \<Rightarrow> nat \<Rightarrow> string \<Rightarrow> bool" where
  "isLength lo hi s = (lo \<le> length s \<and> length s \<le> hi)"

text \<open>
  \<open>toInt\<close> is \<open>parseInt(str, 10)\<close>: leading white space, an optional sign, then the
  longest run of digits; \<open>NaN\<close> when there is no digit.
\<close>

definition parseInt :: "string \<Rightarrow> jsval" where
  "parseInt str =
     (let s = dropWhile isWhiteSpace str;
          neg = (s \<noteq> [] \<and> hd s = CHR ''-'');
          s1 = (if s \<noteq> [] \<and> (hd s = CHR ''+'' \<or> hd s = CHR ''-'') then tl s else s);
          z = takeWhile isDigit s1
      in if z = [] then NaN
         else Num ((if neg then - 1 else 1) * int (digits_val z)))"

text \<open>
  \<open>isInt({ min, max })\<close>: the pattern \<open>/^[-+]?[0-9]+$/\<close>, and the number the string
  denotes lies between the bounds.
\<close>

definition isInt :: "int \<Rightarrow> int \<Rightarrow> string \<Rightarrow> bool" where
  "isInt lo hi s =
     (let neg = (s \<noteq> [] \<and> hd s = CHR ''-'');
          s1 = (if s \<noteq> [] \<and> (hd s = CHR ''+'' \<or> hd s = CHR ''-'') then tl s else s);
          v = (if neg then - 1 else 1) * int (digits_val s1)
      in s1 \<noteq> [] \<and> list_all isDigit s1 \<and> lo \<le> v \<and> v \<le> hi)"

text \<open>
  A validation error; of the members of the library's error object the field's path and
  the message are modelled.
\<close>

record verror =
  path :: string
  msg :: string

datatype contextItem =
  Sanitizer "string \<Rightarrow> jsval"
| Validator "string \<Rightarrow> bool" string

record validationChain =
  field :: string
  optional :: bool
  stack :: "contextItem list"

text \<open>
  The request body: the parsed form, a dictionary from field names to values. For a plain
  field name the form parser produces a string, and a field that was not submitted reads
  as \<open>undefined\<close>. For a repeated or bracketed name (\<open>firstName[]=Bob\<close>) the parser
  produces an array or an object, which the library validates element by element and the
  handlers store as it is: such values are outside the model, and the statements below
  are about submissions without them.
\<close>

type_synonym body = "string \<rightharpoonup> jsval"

definition body_get :: "body \<Rightarrow> string \<Rightarrow> jsval" where
  "body_get b k = (case b k of None \<Rightarrow> Undefined | Some v \<Rightarrow> v)"

fun runItem :: "string \<Rightarrow> contextItem \<Rightarrow> jsval \<times> verror list \<Rightarrow> jsval \<times> verror list" where
  "runItem p (Sanitizer f) (v, es) = (f (toString v), es)"
| "runItem p (Validator g m) (v, es) =
     (if g (toString v) then (v, es) else (v, es @ [\<lparr>path = p, msg = m\<rparr>]))"

text \<open>
  Each item of the chain runs on the current value of the field, unless the chain is
  optional and that value is \<open>undefined\<close>.
\<close>

definition runStack :: "validationChain \<Rightarrow> jsval \<Rightarrow> jsval \<times> verror list" where
  "runStack c v =
     foldl (\<lambda>st it. if optional c \<and> fst st = Undefined then st else runItem (field c) it st)
       (v, []) (stack c)"

text \<open>A chain as middleware: the sanitized value is written back when it has changed.\<close>

definition runChain :: "validationChain \<Rightarrow> body \<times> verror list \<Rightarrow> body \<times> verror list" where
  "runChain c st =
     (let b = fst st;
          r = runStack c (body_get b (field c));
          b' = (if body_get b (field c) = fst r then b else b(field c \<mapsto> fst r))
      in (b', snd st @ snd r))"

text \<open>
  The chains run in order; \<open>validationResult(req).array()\<close> is the second component.
\<close>

definition runChains :: "validationChain list \<Rightarrow> body \<Rightarrow> body \<times> verror list" where
  "runChains cs b = foldl (\<lambda>st c. runChain c st) (b, []) cs"

section \<open>controller/usersController.js\<close>

definition alphaErr :: string where
  "alphaErr = ''must only contain letters.''"

definition lengthErr :: string where
  "lengthErr = ''must be between 1 and 10 characters.''"

definition emailErr :: string where
  "emailErr = ''Must be an email''"

definition ageErr :: string where
  "ageErr = ''Must be a number between 18 and 200''"

definition bioErr :: string where
  "bioErr = ''Must be below 200 characters''"

definition validateUser :: "(string \<Rightarrow> bool) \<Rightarrow> validationChain list" where
  "validateUser isEmail =
     [\<lparr>field = ''firstName'', optional = False,
        stack = [Sanitizer (\<lambda>s. Str (trim s)),
                 Validator isAlpha (''First name '' @ alphaErr),
                 Validator (isLength 1 10) (''First name '' @ lengthErr)]\<rparr>,
      \<lparr>field = ''lastName'', optional = False,
        stack = [Sanitizer (\<lambda>s. Str (trim s)),
                 Validator isAlpha (''Last name '' @ alphaErr),
                 Validator (isLength 1 10) (''Last name '' @ lengthErr)]\<rparr>,
      \<lparr>field = ''email'', optional = False,
        stack = [Sanitizer (\<lambda>s. Str (trim s)),
                 Validator isEmail (''Email '' @ emailErr)]\<rparr>,
      \<lparr>field = ''age'', optional = True,
        stack = [Sanitizer (\<lambda>s. Str (trim s)),
                 Sanitizer parseInt,
                 Validator (isInt 18 200) (''Age '' @ ageErr)]\<rparr>,
      \<lparr>field = ''bio'', optional = True,
        stack = [Sanitizer (\<lambda>s. Str (trim s)),
                 Validator (isLength 0 200) (''Bio '' @ bioErr)]\<rparr>]"

text \<open>The object handed to the template, and the outcome of a handler.\<close>

record locals =
  title :: string
  users :: "user list option"
  user :: "lookup option"
  errors :: "verror list option"
  message :: "string option"

datatype response = Render nat string locals | Redirect nat string

definition usersListGet :: "usersStorage \<Rightarrow> response" where
  "usersListGet s =
     Render 200 ''index''
       \<lparr>title = ''User list'', users = Some (getUsers s), user = None, errors = None,
        message = None\<rparr>"

definition usersCreateGet :: response where
  "usersCreateGet =
     Render 200 ''createUser''
       \<lparr>title = ''Create user'', users = None, user = None, errors = None, message = None\<rparr>"

text \<open>\<open>const { firstName, lastName, email, age, bio } = req.body\<close>\<close>

definition destructure :: "body \<Rightarrow> fields" where
  "destructure b =
     \<lparr>firstName = body_get b ''firstName'', lastName = body_get b ''lastName'',
      email = body_get b ''email'', age = body_get b ''age'', bio = body_get b ''bio''\<rparr>"

definition usersCreatePost ::
  "(string \<Rightarrow> bool) \<Rightarrow> body \<Rightarrow> usersStorage \<Rightarrow> response \<times> usersStorage" where
  "usersCreatePost isEmail b s =
     (let (b', errs) = runChains (validateUser isEmail) b in
      if errs \<noteq> [] then
        (Render 400 ''createUser''
           \<lparr>title = ''Create user'', users = None, user = None, errors = Some errs,
            message = None\<rparr>, s)
      else (Redirect 302 ''/'', addUser (destructure b') s))"

definition usersUpdateGet :: "jsval \<Rightarrow> usersStorage \<Rightarrow> response" where
  "usersUpdateGet i s =
     Render 200 ''updateUser''
       \<lparr>title = ''Update user'', users = None, user = Some (getUser i s), errors = None,
        message = None\<rparr>"

definition usersUpdatePost ::
  "(string \<Rightarrow> bool) \<Rightarrow> jsval \<Rightarrow> body \<Rightarrow> usersStorage \<Rightarrow> response \<times> usersStorage" where
  "usersUpdatePost isEmail i b s =
     (let (b', errs) = runChains (validateUser isEmail) b;
          u = getUser i s in
      if errs \<noteq> [] then
        (Render 400 ''updateUser''
           \<lparr>title = ''Update user'', users = None, user = Some u, errors = Some errs,
            message = None\<rparr>, s)
      else (Redirect 302 ''/'', updateUser i (destructure b') s))"

text \<open>
  \<open>req.query.name\<close>: absent, a string, or (for a repeated or bracketed parameter) an array
  or object, which has no \<open>trim\<close> function.
\<close>

datatype qparam = QAbsent | QString string | QOther

text \<open>
  The filter's callback. \<open>toLowerCase\<close> exists on strings only, and the right operand of
  \<open>||\<close> is evaluated only when the left one is false.
\<close>

definition search_match :: "string \<Rightarrow> user \<Rightarrow> error + bool" where
  "search_match searchTerm u =
     (case firstName u of
        Str f \<Rightarrow>
          if includes_js (toLowerCase f) searchTerm then Inr True
          else (case lastName u of
                  Str l \<Rightarrow> Inr (includes_js (toLowerCase l) searchTerm)
                | _ \<Rightarrow> Inl TypeError)
      | _ \<Rightarrow> Inl TypeError)"

fun filter_users :: "(user \<Rightarrow> error + bool) \<Rightarrow> user list \<Rightarrow> error + user list" where
  "filter_users p [] = Inr []"
| "filter_users p (u # us) =
     (case p u of
        Inl e \<Rightarrow> Inl e
      | Inr keep \<Rightarrow>
          (case filter_users p us of
             Inl e \<Rightarrow> Inl e
           | Inr rest \<Rightarrow> Inr (if keep then u # rest else rest)))"

definition userSearchGet :: "qparam \<Rightarrow> usersStorage \<Rightarrow> error + response" where
  "userSearchGet q s =
     (case q of
        QString name \<Rightarrow>
          (let searchTerm = toLowerCase (trim name) in
           case filter_users (search_match searchTerm) (getUsers s) of
             Inl e \<Rightarrow> Inl e
           | Inr results \<Rightarrow>
               Inr (if length results > 0 then
                      Render 200 ''searchResults''
                        \<lparr>title = ''Search results'', users = Some results, user = None,
                         errors = None, message = None\<rparr>
                    else
                      Render 404 ''searchResults''
                        \<lparr>title = ''Search results'', users = Some [], user = None,
                         errors = None, message = Some ''404 - No users found.''\<rparr>))
      | _ \<Rightarrow> Inl TypeError)"

definition userDeletePost :: "jsval \<Rightarrow> usersStorage \<Rightarrow> response \<times> usersStorage" where
  "userDeletePost i s = (Redirect 302 ''/'', deleteUser i s)"

section \<open>routes/usersRouter.js\<close>

text \<open>
  A router is the list of its routes in the order of registration. The model of Express
  is this much: a request goes to the first route whose path pattern matches and which has
  a handler for the request's verb; a route registered without a handler never takes a
  request; a request no route takes is answered by the framework with 404, and an
  exception thrown by a handler is caught by the framework. Literal segments match without
  regard to case, a parameter matches one non-empty segment. The path of a request is the
  list of its segments.
\<close>

datatype http_verb = GET | POST

datatype segment = Lit string | Param string

datatype handler =
  UsersListGet | UsersCreateGet | UsersCreatePost | UsersUpdateGet | UsersUpdatePost
| UserSearchGet | UserDeletePost

record route =
  verb :: http_verb
  pattern :: "segment list"
  callback :: "handler option"

record request =
  req_method :: http_verb
  req_path :: "string list"
  req_body :: body
  req_query_name :: qparam

datatype outcome = Responded response | Threw error | NotFound

fun match_path :: "segment list \<Rightarrow> string list \<Rightarrow> (string \<times> string) list option" where
  "match_path [] [] = Some []"
| "match_path (Lit l # ps) (x # xs) =
     (if toLowerCase x = toLowerCase l then match_path ps xs else None)"
| "match_path (Param n # ps) (x # xs) =
     (if x \<noteq> [] then map_option (\<lambda>r. (n, x) # r) (match_path ps xs) else None)"
| "match_path _ _ = None"

text \<open>\<open>req.params.id\<close>\<close>

definition params_id :: "(string \<times> string) list \<Rightarrow> jsval" where
  "params_id ps = (case map_of ps ''id'' of None \<Rightarrow> Undefined | Some v \<Rightarrow> Str v)"

fun invoke ::
  "(string \<Rightarrow> bool) \<Rightarrow> handler \<Rightarrow> jsval \<Rightarrow> request \<Rightarrow> usersStorage \<Rightarrow> outcome \<times> usersStorage" where
  "invoke isEmail UsersListGet i req s = (Responded (usersListGet s), s)"
| "invoke isEmail UsersCreateGet i req s = (Responded usersCreateGet, s)"
| "invoke isEmail UsersCreatePost i req s =
     (let (r, s') = usersCreatePost isEmail (req_body req) s in (Responded r, s'))"
| "invoke isEmail UsersUpdateGet i req s = (Responded (usersUpdateGet i s), s)"
| "invoke isEmail UsersUpdatePost i req s =
     (let (r, s') = usersUpdatePost isEmail i (req_body req) s in (Responded r, s'))"
| "invoke isEmail UserSearchGet i req s =
     (case userSearchGet (req_query_name req) s of
        Inl e \<Rightarrow> (Threw e, s)
      | Inr r \<Rightarrow> (Responded r, s))"
| "invoke isEmail UserDeletePost i req s =
     (let (r, s') = userDeletePost i s in (Responded r, s'))"

fun dispatch ::
  "(string \<Rightarrow> bool) \<Rightarrow> route list \<Rightarrow> request \<Rightarrow> usersStorage \<Rightarrow> outcome \<times> usersStorage" where
  "dispatch isEmail [] req s = (NotFound, s)"
| "dispatch isEmail (r # rs) req s =
     (case match_path (pattern r) (req_path req) of
        None \<Rightarrow> dispatch isEmail rs req s
      | Some ps \<Rightarrow>
          (case callback r of
             None \<Rightarrow> dispatch isEmail rs req s
           | Some h \<Rightarrow>
               if verb r = req_method req then invoke isEmail h (params_id ps) req s
               else dispatch isEmail rs req s))"

text \<open>The router of \<open>src/routes/usersRouter.js\<close>.\<close>

definition usersRouter :: "route list" where
  "usersRouter =
     [\<lparr>verb = GET, pattern = [], callback = Some UsersListGet\<rparr>,
      \<lparr>verb = GET, pattern = [Lit ''create''], callback = Some UsersCreateGet\<rparr>,
      \<lparr>verb = POST, pattern = [Lit ''create''], callback = Some UsersCreatePost\<rparr>,
      \<lparr>verb = GET, pattern = [Lit ''update''], callback = Some UsersUpdateGet\<rparr>,
      \<lparr>verb = POST, pattern = [Lit ''update''], callback = Some UsersUpdatePost\<rparr>]"

text \<open>
  The router of \<open>src/unnamed/part_000\<close>, the version with the delete and search routes.
  Its delete route is registered by \<open>usersRouter.post('/:id/delete')\<close>, with no handler.
\<close>

definition usersRouter_part_000 :: "route list" where
  "usersRouter_part_000 =
     [\<lparr>verb = GET, pattern = [], callback = Some UsersListGet\<rparr>,
      \<lparr>verb = GET, pattern = [Lit ''create''], callback = Some UsersCreateGet\<rparr>,
      \<lparr>verb = POST, pattern = [Lit ''create''], callback = Some UsersCreatePost\<rparr>,
      \<lparr>verb = GET, pattern = [Param ''id'', Lit ''update''], callback = Some UsersUpdateGet\<rparr>,
      \<lparr>verb = POST, pattern = [Param ''id'', Lit ''update''], callback = Some UsersUpdatePost\<rparr>,
      \<lparr>verb = POST, pattern = [Param ''id'', Lit ''delete''], callback = None\<rparr>,
      \<lparr>verb = GET, pattern = [Lit ''search''], callback = Some UserSearchGet\<rparr>]"

section \<open>Histories of the store\<close>

text \<open>
  The three writing operations of the store and sequences of them, run from a given state.
\<close>

datatype op = Add fields | Update jsval fields | Delete jsval

fun apply_op :: "op \<Rightarrow> usersStorage \<Rightarrow> usersStorage" where
  "apply_op (Add f) s = addUser f s"
| "apply_op (Update i f) s = updateUser i f s"
| "apply_op (Delete i) s = deleteUser i s"

fun exec :: "op list \<Rightarrow> usersStorage \<Rightarrow> usersStorage" where
  "exec [] s = s"
| "exec (x # xs) s = exec xs (apply_op x s)"

text \<open>The keys under which the dictionary holds a record.\<close>

definition own_keys :: "usersStorage \<Rightarrow> string list" where
  "own_keys s = map fst (storage s)"

text \<open>
  The ids given to new records. \<open>created x s\<close> reads them off the store: the ids of the
  records that are filed, after the operation \<open>x\<close>, under a key that held no record before
  it, whichever operation filed them. \<open>new_ids\<close> collects them along a history, in order.
\<close>

definition created :: "op \<Rightarrow> usersStorage \<Rightarrow> jsval list" where
  "created x s =
     map (\<lambda>p. id' (snd p))
       (filter (\<lambda>p. fst p \<notin> set (own_keys s)) (storage (apply_op x s)))"

fun new_ids :: "op list \<Rightarrow> usersStorage \<Rightarrow> jsval list" where
  "new_ids [] s = []"
| "new_ids (x # xs) s = created x s @ new_ids xs (apply_op x s)"

text \<open>
  The histories in which every update addresses an id that is in the store at that moment,
  and every add happens while the counter is below \<open>2 ^ 53\<close>.
\<close>

fun guarded :: "op list \<Rightarrow> usersStorage \<Rightarrow> bool" where
  "guarded [] s = True"
| "guarded (Add f # xs) s = (this_id s < 9007199254740992 \<and> guarded xs (addUser f s))"
| "guarded (Update i f # xs) s =
     (toPropertyKey i \<in> set (own_keys s) \<and> guarded xs (updateUser i f s))"
| "guarded (Delete i # xs) s = guarded xs (deleteUser i s)"

section \<open>Notions used in the statements\<close>

text \<open>
  What the class maintains about its dictionary: no key occurs twice, and every record is
  filed under the key its own id converts to.
\<close>

definition store_inv :: "usersStorage \<Rightarrow> bool" where
  "store_inv s =
     (distinct (map fst (storage s)) \<and>
      list_all (\<lambda>p. toPropertyKey (id' (snd p)) = fst p) (storage s))"

text \<open>Every key of the dictionary is the decimal notation of a number below the counter.\<close>

definition ids_below :: "usersStorage \<Rightarrow> bool" where
  "ids_below s =
     list_all (\<lambda>k. digits (digits_val k) = k \<and> digits_val k < this_id s) (own_keys s)"

text \<open>
  The states on which the search is defined: every record has a string as first name and
  a string as last name.
\<close>

definition has_names :: "user \<Rightarrow> bool" where
  "has_names u =
     (case firstName u of
        Str f \<Rightarrow> (case lastName u of Str l \<Rightarrow> True | _ \<Rightarrow> False)
      | _ \<Rightarrow> False)"

definition names_inv :: "usersStorage \<Rightarrow> bool" where
  "names_inv s = list_all (\<lambda>p. has_names (snd p)) (storage s)"

text \<open>
  The search as the specification words it: the records whose lowercased first or last name
  contains the trimmed, lowercased query as a substring (\<^const>\<open>sublist\<close>: a contiguous
  part of the list).
\<close>

definition name_contains :: "string \<Rightarrow> jsval \<Rightarrow> bool" where
  "name_contains t v = (case v of Str x \<Rightarrow> sublist t (toLowerCase x) | _ \<Rightarrow> False)"

definition search_spec :: "string \<Rightarrow> usersStorage \<Rightarrow> user list" where
  "search_spec q s =
     filter (\<lambda>u. name_contains (toLowerCase (trim q)) (firstName u)
                \<or> name_contains (toLowerCase (trim q)) (lastName u)) (getUsers s)"

definition response_users :: "response \<Rightarrow> user list option" where
  "response_users r = (case r of Render st v l \<Rightarrow> users l | Redirect st u \<Rightarrow> None)"

text \<open>
  The names under which a read of the dictionary finds something it inherits: the members
  of \<open>Object.prototype\<close> and, once a record has become the prototype, that record's
  members.
\<close>

definition inherited_keys :: "usersStorage \<Rightarrow> string list" where
  "inherited_keys s =
     ''__proto__'' # objectPrototype_names @
     (case proto s of
        None \<Rightarrow> []
      | Some r \<Rightarrow> [''id'', ''firstName'', ''lastName'', ''email'', ''age'', ''bio''])"

text \<open>
  The submissions of the specification's validation properties: a name that holds a digit
  or whose trimmed length is 0 or above 10, with the messages the specification expects
  for it; and a name of 1 to 10 letters, with the other fields passing their rules.
\<close>

definition invalid_name :: "jsval \<Rightarrow> bool" where
  "invalid_name v =
     (list_ex isDigit (toString v) \<or> length (trim (toString v)) = 0
      \<or> 10 < length (trim (toString v)))"

definition expected_name_errors :: "string \<Rightarrow> string \<Rightarrow> jsval \<Rightarrow> verror list" where
  "expected_name_errors p label v =
     (if list_ex isDigit (toString v)
      then [\<lparr>path = p, msg = label @ '' must only contain letters.''\<rparr>] else []) @
     (if length (trim (toString v)) = 0 \<or> 10 < length (trim (toString v))
      then [\<lparr>path = p, msg = label @ '' must be between 1 and 10 characters.''\<rparr>] else [])"

definition valid_name :: "string \<Rightarrow> bool" where
  "valid_name n = (1 \<le> length n \<and> length n \<le> 10 \<and> list_all isLetter n)"

definition others_pass :: "(string \<Rightarrow> bool) \<Rightarrow> body \<Rightarrow> bool" where
  "others_pass isEmail b =
     (isEmail (trim (toString (body_get b ''email'')))
      \<and> (body_get b ''age'' = Undefined
          \<or> isInt 18 200 (toString (parseInt (trim (toString (body_get b ''age''))))))
      \<and> (body_get b ''bio'' = Undefined
          \<or> length (trim (toString (body_get b ''bio''))) \<le> 200))"

text \<open>
  The errors the name chains and the other three chains report, each as a function of the
  submitted value; \<open>validateUser_reported\<close> below shows that the validator reports
  exactly these, in this order.
\<close>

definition reported_name_errors :: "string \<Rightarrow> string \<Rightarrow> jsval \<Rightarrow> verror list" where
  "reported_name_errors p l v =
     (if isAlpha (trim (toString v)) then []
      else [\<lparr>path = p, msg = l @ '' must only contain letters.''\<rparr>]) @
     (if isLength 1 10 (trim (toString v)) then []
      else [\<lparr>path = p, msg = l @ '' must be between 1 and 10 characters.''\<rparr>])"

definition reported_other_errors :: "(string \<Rightarrow> bool) \<Rightarrow> body \<Rightarrow> verror list" where
  "reported_other_errors isEmail b =
     (if isEmail (trim (toString (body_get b ''email''))) then []
      else [\<lparr>path = ''email'', msg = ''Email Must be an email''\<rparr>]) @
     (if body_get b ''age'' = Undefined
         \<or> isInt 18 200 (toString (parseInt (trim (toString (body_get b ''age''))))) then []
      else [\<lparr>path = ''age'', msg = ''Age Must be a number between 18 and 200''\<rparr>]) @
     (if body_get b ''bio'' = Undefined
         \<or> isLength 0 200 (trim (toString (body_get b ''bio''))) then []
      else [\<lparr>path = ''bio'', msg = ''Bio Must be below 200 characters''\<rparr>])"

section \<open>Decimal notation and the dictionary\<close>

lemma of_char_digit: "d < 10 \<Longrightarrow> of_char (digit d) = (48 + d :: nat)"
  by (simp add: digit_def)

lemma digits_val_snoc: "digits_val (s @ [c]) = 10 * digits_val s + (of_char c - 48)"
  by (simp add: digits_val_def)

lemma digits_val_digits: "digits_val (digits n) = n"
proof (induction n rule: digits.induct)
  case (1 n)
  show ?case
  proof (cases "n < 10")
    case True
    then show ?thesis by (simp add: digits.simps[of n] digits_val_def of_char_digit)
  next
    case False
    then have "digits n = digits (n div 10) @ [digit (n mod 10)]"
      by (simp add: digits.simps[of n])
    with 1 False show ?thesis by (simp add: digits_val_snoc of_char_digit)
  qed
qed

lemma digits_inj: "digits n = digits m \<Longrightarrow> n = m"
  by (metis digits_val_digits)

lemma isDigit_digit: "d < 10 \<Longrightarrow> isDigit (digit d)"
  by (simp add: isDigit_def of_char_digit)

lemma digits_all_digit: "list_all isDigit (digits n)"
proof (induction n rule: digits.induct)
  case (1 n)
  show ?case
  proof (cases "n < 10")
    case True
    then show ?thesis by (simp add: digits.simps[of n] isDigit_digit)
  next
    case False
    then have "digits n = digits (n div 10) @ [digit (n mod 10)]"
      by (simp add: digits.simps[of n])
    with 1 False show ?thesis by (simp add: isDigit_digit)
  qed
qed

lemma digits_not_proto: "digits n \<noteq> ''__proto__''"
proof
  assume "digits n = ''__proto__''"
  then have "list_all isDigit ''__proto__''" using digits_all_digit[of n] by simp
  then show False by (simp add: isDigit_def)
qed

lemma key_Num_nat_not_proto: "toPropertyKey (Num (int n)) \<noteq> ''__proto__''"
  by (simp add: numberToString_def digits_not_proto)

lemma key_Num_nat: "toPropertyKey (Num (int n)) = digits n"
  by (simp add: numberToString_def)

lemma map_of_update_same: "map_of (AList.update k v al) k = Some v"
  by (simp add: update_conv')

lemma storage_get_set: "storage_get (storage_set k u s) k = Rec u"
  by (auto simp: storage_get_def storage_set_def update_conv' objectPrototype_get_def user_own_def)

lemma getUser_updateUser: "getUser i (updateUser i f s) = Rec (mk_user i f)"
  by (simp add: getUser_def updateUser_def storage_get_set)

lemma deleteUser_twice: "deleteUser i (deleteUser i s) = deleteUser i s"
  by (simp add: deleteUser_def delete_idem)

lemma getUser_deleteUser:
  "getUser i (deleteUser i s) =
     (case proto s of
        None \<Rightarrow> objectPrototype_get None (toPropertyKey i)
      | Some r \<Rightarrow> (case user_own r (toPropertyKey i) of Some v \<Rightarrow> Value v
                   | None \<Rightarrow> objectPrototype_get (Some r) (toPropertyKey i)))"
  by (simp add: getUser_def deleteUser_def storage_get_def delete_conv')

lemma set_ownPropertyOrder: "set (ownPropertyOrder ps) = set ps"
  by (auto simp: ownPropertyOrder_def)

lemma mset_ownPropertyOrder: "mset (ownPropertyOrder ps) = mset ps"
  by (simp add: ownPropertyOrder_def)

lemma set_getUsers: "set (getUsers s) = snd ` set (storage s)"
  by (simp add: getUsers_def set_ownPropertyOrder)

lemma store_inv_constructor: "store_inv constructor"
  by (simp add: store_inv_def constructor_def)

lemma set_update_subset: "set (AList.update k v al) \<subseteq> insert (k, v) (set al)"
  by (induction al) auto

lemma store_inv_storage_set:
  "store_inv s \<Longrightarrow> toPropertyKey (id' u) = k \<Longrightarrow> store_inv (storage_set k u s)"
  using set_update_subset[of k u "storage s"]
  by (auto simp: store_inv_def storage_set_def distinct_update list_all_iff)

lemma store_inv_updateUser: "store_inv s \<Longrightarrow> store_inv (updateUser i f s)"
  by (simp add: updateUser_def store_inv_storage_set mk_user_def)

lemma store_inv_this_id: "store_inv (s\<lparr>this_id := n\<rparr>) = store_inv s"
  by (simp add: store_inv_def)

lemma store_inv_addUser: "store_inv s \<Longrightarrow> store_inv (addUser f s)"
  by (simp add: addUser_def Let_def store_inv_this_id store_inv_storage_set mk_user_def)

lemma store_inv_deleteUser: "store_inv s \<Longrightarrow> store_inv (deleteUser i s)"
proof -
  assume a: "store_inv s"
  have "set (AList.delete (toPropertyKey i) (storage s)) \<subseteq> set (storage s)"
    by (auto simp: AList.delete_eq)
  with a show ?thesis
    by (auto simp: deleteUser_def store_inv_def distinct_delete list_all_iff)
qed

lemma store_inv_exec: "store_inv s \<Longrightarrow> store_inv (exec ops s)"
proof (induction ops arbitrary: s)
  case Nil then show ?case by simp
next
  case (Cons x xs)
  then show ?case
    by (cases x) (simp_all add: store_inv_addUser store_inv_updateUser store_inv_deleteUser)
qed

lemma distinct_ids_getUsers:
  assumes "store_inv s"
  shows "distinct (map id' (getUsers s))"
proof -
  have d: "distinct (map fst (ownPropertyOrder (storage s)))"
    using assms mset_ownPropertyOrder[of "storage s"]
    by (metis store_inv_def mset_eq_imp_distinct_iff mset_map)
  have "map fst (ownPropertyOrder (storage s)) = map (toPropertyKey \<circ> id') (getUsers s)"
    using assms by (auto simp: getUsers_def store_inv_def set_ownPropertyOrder list_all_iff)
  with d have "distinct (map toPropertyKey (map id' (getUsers s)))" by simp
  then show ?thesis using distinct_map by blast
qed

section \<open>The counter and the validator\<close>

lemma this_id_storage_set: "this_id (storage_set k u s) = this_id s"
  by (simp add: storage_set_def)

lemma in_dropWhile: "x \<in> set s \<Longrightarrow> \<not> P x \<Longrightarrow> x \<in> set (dropWhile P s)"
  by (induction s) auto

lemma in_trim: "c \<in> set s \<Longrightarrow> \<not> isWhiteSpace c \<Longrightarrow> c \<in> set (trim s)"
  by (simp add: trim_def in_dropWhile)

lemma digit_not_space: "isDigit c \<Longrightarrow> \<not> isWhiteSpace c"
  by (auto simp: isDigit_def isWhiteSpace_def)

lemma digit_not_letter: "isDigit c \<Longrightarrow> \<not> isLetter c"
  by (auto simp: isDigit_def isLetter_def Let_def)

lemma letter_not_space: "isLetter c \<Longrightarrow> \<not> isWhiteSpace c"
  by (auto simp: isLetter_def isWhiteSpace_def Let_def)

lemma digit_not_alpha: "list_ex isDigit s \<Longrightarrow> \<not> isAlpha (trim s)"
  by (auto simp: isAlpha_def list_ex_iff list_all_iff dest: in_trim digit_not_space digit_not_letter)

lemma dropWhile_none: "\<forall>x \<in> set s. \<not> P x \<Longrightarrow> dropWhile P s = s"
  by (cases s) auto

lemma trim_alpha: "list_all isLetter s \<Longrightarrow> trim s = s"
  by (simp add: trim_def dropWhile_none list_all_iff letter_not_space)

lemma runStack_SVV:
  "runStack \<lparr>field = p, optional = False,
      stack = [Sanitizer f, Validator g1 m1, Validator g2 m2]\<rparr> v =
   (f (toString v),
    (if g1 (toString (f (toString v))) then [] else [\<lparr>path = p, msg = m1\<rparr>]) @
    (if g2 (toString (f (toString v))) then [] else [\<lparr>path = p, msg = m2\<rparr>]))"
  by (simp add: runStack_def)

lemma runStack_SV:
  "runStack \<lparr>field = p, optional = False, stack = [Sanitizer f, Validator g1 m1]\<rparr> v =
   (f (toString v),
    (if g1 (toString (f (toString v))) then [] else [\<lparr>path = p, msg = m1\<rparr>]))"
  by (simp add: runStack_def)

lemma runStack_opt_SSV:
  "(\<And>x. f x \<noteq> Undefined) \<Longrightarrow> (\<And>x. h x \<noteq> Undefined) \<Longrightarrow>
   runStack \<lparr>field = p, optional = True,
      stack = [Sanitizer f, Sanitizer h, Validator g1 m1]\<rparr> v =
   (if v = Undefined then (Undefined, [])
    else (h (toString (f (toString v))),
      (if g1 (toString (h (toString (f (toString v))))) then [] else [\<lparr>path = p, msg = m1\<rparr>])))"
  by (simp add: runStack_def)

lemma runStack_opt_SV:
  "(\<And>x. f x \<noteq> Undefined) \<Longrightarrow>
   runStack \<lparr>field = p, optional = True, stack = [Sanitizer f, Validator g1 m1]\<rparr> v =
   (if v = Undefined then (Undefined, [])
    else (f (toString v),
      (if g1 (toString (f (toString v))) then [] else [\<lparr>path = p, msg = m1\<rparr>])))"
  by (simp add: runStack_def)

lemma parseInt_defined: "parseInt x \<noteq> Undefined"
  by (simp add: parseInt_def Let_def)

lemma body_get_upd: "body_get (b(k \<mapsto> v)) k' = (if k' = k then v else body_get b k')"
  by (simp add: body_get_def)

lemma runChain_fst:
  "body_get (fst (runChain c st)) k =
     (if k = field c then fst (runStack c (body_get (fst st) (field c))) else body_get (fst st) k)"
  by (simp add: runChain_def Let_def body_get_upd)

lemma runChain_snd:
  "snd (runChain c st) = snd st @ snd (runStack c (body_get (fst st) (field c)))"
  by (simp add: runChain_def Let_def)

lemma runChains_snoc: "runChains (cs @ [c]) b = runChain c (runChains cs b)"
  by (simp add: runChains_def)

lemma runChains_other:
  "k \<notin> field ` set cs \<Longrightarrow> body_get (fst (runChains cs b)) k = body_get b k"
proof (induction cs rule: rev_induct)
  case Nil
  then show ?case by (simp add: runChains_def)
next
  case (snoc c cs)
  then show ?case by (auto simp: runChains_snoc runChain_fst)
qed

lemma runChains_fst:
  "distinct (map field cs) \<Longrightarrow> c \<in> set cs \<Longrightarrow>
   body_get (fst (runChains cs b)) (field c) = fst (runStack c (body_get b (field c)))"
proof (induction cs rule: rev_induct)
  case Nil
  then show ?case by simp
next
  case (snoc x xs)
  then have d: "distinct (map field xs)" and n: "field x \<notin> field ` set xs" by auto
  show ?case
  proof (cases "c = x")
    case True
    with n show ?thesis
      by (simp add: runChains_snoc runChain_fst runChains_other)
  next
    case False
    with snoc.prems have m: "c \<in> set xs" by simp
    have "field c \<noteq> field x"
    proof
      assume "field c = field x"
      with m have "field x \<in> field ` set xs" by (metis imageI)
      with n show False by simp
    qed
    with snoc.IH[OF d m] show ?thesis
      by (simp add: runChains_snoc runChain_fst)
  qed
qed

lemma runChains_snd:
  "distinct (map field cs) \<Longrightarrow>
   snd (runChains cs b) = concat (map (\<lambda>c. snd (runStack c (body_get b (field c)))) cs)"
proof (induction cs rule: rev_induct)
  case Nil
  then show ?case by (simp add: runChains_def)
next
  case (snoc c cs)
  then have d: "distinct (map field cs)" and n: "field c \<notin> field ` set cs" by auto
  with snoc.IH[OF d] show ?case
    by (simp add: runChains_snoc runChain_snd runChains_other)
qed

lemma validateUser_distinct: "distinct (map field (validateUser isEmail))"
  by (simp add: validateUser_def)

lemma validateUser_errors:
  "snd (runChains (validateUser isEmail) b) =
     (if isAlpha (trim (toString (body_get b ''firstName''))) then []
      else [\<lparr>path = ''firstName'', msg = ''First name must only contain letters.''\<rparr>]) @
     (if isLength 1 10 (trim (toString (body_get b ''firstName''))) then []
      else [\<lparr>path = ''firstName'', msg = ''First name must be between 1 and 10 characters.''\<rparr>]) @
     (if isAlpha (trim (toString (body_get b ''lastName''))) then []
      else [\<lparr>path = ''lastName'', msg = ''Last name must only contain letters.''\<rparr>]) @
     (if isLength 1 10 (trim (toString (body_get b ''lastName''))) then []
      else [\<lparr>path = ''lastName'', msg = ''Last name must be between 1 and 10 characters.''\<rparr>]) @
     (if isEmail (trim (toString (body_get b ''email''))) then []
      else [\<lparr>path = ''email'', msg = ''Email Must be an email''\<rparr>]) @
     (if body_get b ''age'' = Undefined
         \<or> isInt 18 200 (toString (parseInt (trim (toString (body_get b ''age''))))) then []
      else [\<lparr>path = ''age'', msg = ''Age Must be a number between 18 and 200''\<rparr>]) @
     (if body_get b ''bio'' = Undefined
         \<or> isLength 0 200 (trim (toString (body_get b ''bio''))) then []
      else [\<lparr>path = ''bio'', msg = ''Bio Must be below 200 characters''\<rparr>])"
  unfolding runChains_snd[OF validateUser_distinct]
  by (simp add: validateUser_def runStack_SVV runStack_SV
      runStack_opt_SSV runStack_opt_SV parseInt_defined
      alphaErr_def lengthErr_def emailErr_def ageErr_def bioErr_def)

lemma validateUser_body:
  "destructure (fst (runChains (validateUser isEmail) b)) =
     \<lparr>firstName = Str (trim (toString (body_get b ''firstName''))),
      lastName = Str (trim (toString (body_get b ''lastName''))),
      email = Str (trim (toString (body_get b ''email''))),
      age = (if body_get b ''age'' = Undefined then Undefined
             else parseInt (trim (toString (body_get b ''age'')))),
      bio = (if body_get b ''bio'' = Undefined then Undefined
             else Str (trim (toString (body_get b ''bio''))))\<rparr>"
proof -
  let ?cs = "validateUser isEmail"
  note d = validateUser_distinct[of isEmail]
  have m: "\<And>c. c \<in> set ?cs \<Longrightarrow>
      body_get (fst (runChains ?cs b)) (field c) = fst (runStack c (body_get b (field c)))"
    by (rule runChains_fst[OF d])
  have "body_get (fst (runChains ?cs b)) ''firstName'' = Str (trim (toString (body_get b ''firstName'')))"
    using m[of "?cs ! 0"] by (simp add: validateUser_def runStack_SVV)
  moreover have "body_get (fst (runChains ?cs b)) ''lastName'' = Str (trim (toString (body_get b ''lastName'')))"
    using m[of "?cs ! 1"] by (simp add: validateUser_def runStack_SVV)
  moreover have "body_get (fst (runChains ?cs b)) ''email'' = Str (trim (toString (body_get b ''email'')))"
    using m[of "?cs ! 2"] by (simp add: validateUser_def runStack_SV)
  moreover have "body_get (fst (runChains ?cs b)) ''age'' =
      (if body_get b ''age'' = Undefined then Undefined else parseInt (trim (toString (body_get b ''age''))))"
    using m[of "?cs ! 3"] by (simp add: validateUser_def runStack_opt_SSV parseInt_defined)
  moreover have "body_get (fst (runChains ?cs b)) ''bio'' =
      (if body_get b ''bio'' = Undefined then Undefined else Str (trim (toString (body_get b ''bio''))))"
    using m[of "?cs ! 4"] by (simp add: validateUser_def runStack_opt_SV)
  ultimately show ?thesis by (simp add: destructure_def)
qed

section \<open>The search\<close>

lemma includes_js_sublist: "includes_js s t = sublist t s"
proof (induction s)
  case Nil
  then show ?case by simp
next
  case (Cons c s)
  show ?case
  proof (cases t)
    case Nil
    then show ?thesis by simp
  next
    case (Cons a as)
    with Cons.IH show ?thesis by (simp add: sublist_Cons_right)
  qed
qed

lemma search_match_names:
  "has_names u \<Longrightarrow>
   search_match t u = Inr (name_contains t (firstName u) \<or> name_contains t (lastName u))"
  by (auto simp: has_names_def search_match_def name_contains_def includes_js_sublist
      split: jsval.splits)

lemma filter_users_names:
  "list_all has_names us \<Longrightarrow>
   filter_users (search_match t) us =
     Inr (filter (\<lambda>u. name_contains t (firstName u) \<or> name_contains t (lastName u)) us)"
  by (induction us) (simp_all add: search_match_names)

lemma names_inv_getUsers: "names_inv s \<Longrightarrow> list_all has_names (getUsers s)"
  by (auto simp: names_inv_def list_all_iff set_getUsers)

lemma userSearchGet_names:
  "names_inv s \<Longrightarrow>
   userSearchGet (QString q) s =
     Inr (if search_spec q s = [] then
            Render 404 ''searchResults''
              \<lparr>title = ''Search results'', users = Some [], user = None, errors = None,
               message = Some ''404 - No users found.''\<rparr>
          else
            Render 200 ''searchResults''
              \<lparr>title = ''Search results'', users = Some (search_spec q s), user = None,
               errors = None, message = None\<rparr>)"
  by (simp add: userSearchGet_def Let_def filter_users_names[OF names_inv_getUsers]
      search_spec_def)

section \<open>Reading, writing and deleting\<close>

lemma in_set_update: "(k, v) \<in> set (AList.update k v al)"
  by (induction al) auto

lemma in_getUsers_storage_set:
  "k \<noteq> ''__proto__'' \<Longrightarrow> u \<in> set (getUsers (storage_set k u s))"
  using in_set_update[of k u "storage s"]
  by (force simp: set_getUsers storage_set_def)

lemma storage_get_this_id: "storage_get (s\<lparr>this_id := n\<rparr>) k = storage_get s k"
  by (simp add: storage_get_def split: option.split)

lemma getUser_addUser:
  "getUser (Num (int (this_id s))) (addUser f s) = Rec (mk_user (Num (int (this_id s))) f)"
  by (simp add: getUser_def addUser_def Let_def storage_get_this_id storage_get_set)

lemma in_getUsers_addUser:
  "mk_user (Num (int (this_id s))) f \<in> set (getUsers (addUser f s))"
  using in_getUsers_storage_set[OF key_Num_nat_not_proto[of "this_id s"],
      of "mk_user (Num (int (this_id s))) f" s]
  by (simp add: addUser_def Let_def set_getUsers)

lemma objectPrototype_get_absent:
  "k \<noteq> ''__proto__'' \<Longrightarrow> k \<notin> set objectPrototype_names \<Longrightarrow>
   objectPrototype_get p k = Value Undefined"
  by (simp add: objectPrototype_get_def)

lemma user_own_None:
  "k \<notin> set [''id'', ''firstName'', ''lastName'', ''email'', ''age'', ''bio''] \<Longrightarrow>
   user_own r k = None"
  by (simp add: user_own_def)

lemma not_inherited_absent:
  assumes "toPropertyKey i \<notin> set (inherited_keys s)"
  shows "getUser i (deleteUser i s) = Value Undefined"
proof -
  let ?k = "toPropertyKey i"
  from assms have k1: "?k \<noteq> ''__proto__''" and k2: "?k \<notin> set objectPrototype_names"
    by (simp_all add: inherited_keys_def)
  show ?thesis
  proof (cases "proto s")
    case None
    with k1 k2 show ?thesis
      by (simp add: getUser_deleteUser objectPrototype_get_absent)
  next
    case (Some r)
    with assms have "?k \<notin> set [''id'', ''firstName'', ''lastName'', ''email'', ''age'', ''bio'']"
      by (simp add: inherited_keys_def)
    then have "user_own r ?k = None" by (rule user_own_None)
    with Some k1 k2 show ?thesis
      by (simp add: getUser_deleteUser objectPrototype_get_absent)
  qed
qed

lemma digits_0: "digits 0 = ''0''"
  by code_simp

lemma inherited_keys_not_decimal: "k \<in> set (inherited_keys s) \<Longrightarrow> \<not> list_all isDigit k"
  by (cases "proto s") (auto simp: inherited_keys_def objectPrototype_names_def isDigit_def)

lemma getUser_deleteUser_decimal:
  "getUser (Num (int n)) (deleteUser (Num (int n)) s) = Value Undefined"
proof -
  have "toPropertyKey (Num (int n)) \<notin> set (inherited_keys s)"
    using inherited_keys_not_decimal[of "digits n" s] digits_all_digit[of n]
    by (auto simp: numberToString_def)
  then show ?thesis by (rule not_inherited_absent)
qed

section \<open>Guarded histories\<close>

lemma postIncrement_mono: "n \<le> postIncrement n"
  by (simp add: postIncrement_def)

lemma this_id_addUser: "this_id (addUser f s) = postIncrement (this_id s)"
  by (simp add: addUser_def Let_def)

lemma this_id_apply_op: "this_id s \<le> this_id (apply_op x s)"
  by (cases x)
    (simp_all add: this_id_addUser postIncrement_mono updateUser_def deleteUser_def
      this_id_storage_set)

lemma this_id_exec: "this_id s \<le> this_id (exec ops s)"
proof (induction ops arbitrary: s)
  case Nil then show ?case by simp
next
  case (Cons x xs)
  have "this_id s \<le> this_id (apply_op x s)" by (rule this_id_apply_op)
  also have "\<dots> \<le> this_id (exec xs (apply_op x s))" by (rule Cons.IH)
  finally show ?case by simp
qed

lemma update_absent_append: "k \<notin> fst ` set al \<Longrightarrow> AList.update k v al = al @ [(k, v)]"
  by (induction al) auto

lemma ids_below_key_absent:
  assumes "ids_below s"
  shows "digits (this_id s) \<notin> set (own_keys s)"
proof
  assume "digits (this_id s) \<in> set (own_keys s)"
  with assms have "digits_val (digits (this_id s)) < this_id s"
    by (auto simp: ids_below_def list_all_iff)
  then show False by (simp add: digits_val_digits)
qed

lemma storage_addUser_fresh:
  assumes "ids_below s"
  shows "storage (addUser f s) =
    storage s @ [(digits (this_id s), mk_user (Num (int (this_id s))) f)]"
proof -
  have "digits (this_id s) \<notin> fst ` set (storage s)"
    using ids_below_key_absent[OF assms] by (simp add: own_keys_def)
  then show ?thesis
    by (simp add: addUser_def Let_def storage_set_def numberToString_def digits_not_proto
        update_absent_append)
qed

lemma created_Add:
  assumes "ids_below s"
  shows "created (Add f) s = [Num (int (this_id s))]"
proof -
  have "filter (\<lambda>p. fst p \<notin> set (own_keys s)) (storage s) = []"
    by (auto simp: own_keys_def filter_empty_conv)
  with ids_below_key_absent[OF assms] show ?thesis
    by (simp add: created_def storage_addUser_fresh[OF assms] mk_user_def)
qed

lemma ids_below_addUser:
  assumes "ids_below s" and "this_id s < 9007199254740992"
  shows "ids_below (addUser f s)"
proof -
  have t: "this_id (addUser f s) = Suc (this_id s)"
    using assms(2) by (simp add: this_id_addUser postIncrement_def)
  show ?thesis
    using assms(1)
    by (auto simp: ids_below_def own_keys_def storage_addUser_fresh[OF assms(1)] t
        digits_val_digits list_all_iff)
qed

lemma own_keys_updateUser:
  "toPropertyKey i \<in> set (own_keys s) \<Longrightarrow> own_keys (updateUser i f s) = own_keys s"
proof -
  assume a: "toPropertyKey i \<in> set (own_keys s)"
  then have "map_of (storage s) (toPropertyKey i) \<noteq> None"
    by (simp add: own_keys_def map_of_eq_None_iff)
  with a show ?thesis
    by (simp add: updateUser_def storage_set_def own_keys_def update_keys)
qed

lemma created_Update:
  "toPropertyKey i \<in> set (own_keys s) \<Longrightarrow> created (Update i f) s = []"
proof -
  assume a: "toPropertyKey i \<in> set (own_keys s)"
  have "set (map fst (storage (updateUser i f s))) = set (own_keys s)"
    using own_keys_updateUser[OF a, of f] by (simp add: own_keys_def)
  then have "\<forall>p \<in> set (storage (updateUser i f s)). fst p \<in> set (own_keys s)"
    by force
  then show ?thesis by (simp add: created_def filter_empty_conv)
qed

lemma ids_below_updateUser:
  "ids_below s \<Longrightarrow> toPropertyKey i \<in> set (own_keys s) \<Longrightarrow> ids_below (updateUser i f s)"
proof -
  assume a: "ids_below s" and k: "toPropertyKey i \<in> set (own_keys s)"
  have t: "this_id (updateUser i f s) = this_id s"
    by (simp add: updateUser_def this_id_storage_set)
  from a show ?thesis
    by (simp add: ids_below_def own_keys_updateUser[OF k] t)
qed

lemma own_keys_deleteUser: "set (own_keys (deleteUser i s)) \<subseteq> set (own_keys s)"
  by (auto simp: own_keys_def deleteUser_def AList.delete_eq)

lemma created_Delete: "created (Delete i) s = []"
  using own_keys_deleteUser[of i s]
  by (auto simp: created_def filter_empty_conv own_keys_def)

lemma ids_below_deleteUser: "ids_below s \<Longrightarrow> ids_below (deleteUser i s)"
  using own_keys_deleteUser[of i s]
  by (auto simp: ids_below_def list_all_iff deleteUser_def)

lemma ids_below_constructor: "ids_below constructor"
  by (simp add: ids_below_def own_keys_def constructor_def)

lemma new_ids_guarded:
  "guarded ops s \<Longrightarrow> ids_below s \<Longrightarrow>
   \<exists>ns. new_ids ops s = map (\<lambda>n. Num (int n)) ns \<and> sorted_wrt (<) ns
     \<and> (\<forall>n \<in> set ns. this_id s \<le> n \<and> n < this_id (exec ops s))
     \<and> ids_below (exec ops s)"
proof (induction ops s rule: guarded.induct)
  case (1 s)
  then show ?case by simp
next
  case (2 f xs s)
  then have b: "this_id s < 9007199254740992" and g: "guarded xs (addUser f s)" by simp_all
  have t: "this_id (addUser f s) = Suc (this_id s)"
    using b by (simp add: this_id_addUser postIncrement_def)
  from "2.IH"[OF g ids_below_addUser[OF "2.prems"(2) b]] obtain ns where
    n: "new_ids xs (addUser f s) = map (\<lambda>n. Num (int n)) ns" "sorted_wrt (<) ns"
       "\<forall>n \<in> set ns. this_id (addUser f s) \<le> n \<and> n < this_id (exec xs (addUser f s))"
       "ids_below (exec xs (addUser f s))"
    by blast
  have le: "this_id (addUser f s) \<le> this_id (exec xs (addUser f s))" by (rule this_id_exec)
  let ?ns = "this_id s # ns"
  have "new_ids (Add f # xs) s = map (\<lambda>n. Num (int n)) ?ns"
    using n(1) by (simp add: created_Add[OF "2.prems"(2)])
  moreover have "sorted_wrt (<) ?ns" using n(2,3) t by auto
  moreover have "\<forall>n \<in> set ?ns. this_id s \<le> n \<and> n < this_id (exec (Add f # xs) s)"
    using n(3) t le by auto
  moreover have "ids_below (exec (Add f # xs) s)" using n(4) by simp
  ultimately show ?case by blast
next
  case (3 i f xs s)
  then have k: "toPropertyKey i \<in> set (own_keys s)" and g: "guarded xs (updateUser i f s)"
    by simp_all
  have t: "this_id (updateUser i f s) = this_id s"
    by (simp add: updateUser_def this_id_storage_set)
  from "3.IH"[OF g ids_below_updateUser[OF "3.prems"(2) k]] t show ?case
    by (simp add: created_Update[OF k])
next
  case (4 i xs s)
  then have g: "guarded xs (deleteUser i s)" by simp
  have t: "this_id (deleteUser i s) = this_id s" by (simp add: deleteUser_def)
  from "4.IH"[OF g ids_below_deleteUser[OF "4.prems"(2)]] t show ?case
    by (simp add: created_Delete)
qed

lemma set_getUsers_addUser_fresh:
  assumes "ids_below s"
  shows "set (getUsers (addUser f s)) =
    insert (mk_user (Num (int (this_id s))) f) (set (getUsers s))"
  by (simp add: set_getUsers storage_addUser_fresh[OF assms])

section \<open>Validation and the writing handlers\<close>

lemma validateUser_reported:
  "snd (runChains (validateUser isEmail) b) =
     reported_name_errors ''firstName'' ''First name'' (body_get b ''firstName'') @
     reported_name_errors ''lastName'' ''Last name'' (body_get b ''lastName'') @
     reported_other_errors isEmail b"
  unfolding validateUser_errors reported_name_errors_def reported_other_errors_def
  by simp

lemma invalid_name_reported: "invalid_name v \<Longrightarrow> reported_name_errors p l v \<noteq> []"
  using digit_not_alpha[of "toString v"]
  by (auto simp: invalid_name_def isLength_def reported_name_errors_def)

lemma two_errors_subset:
  assumes "D \<longrightarrow> \<not> A" and "L \<longrightarrow> \<not> B"
  shows "set ((if D then [x] else []) @ (if L then [y] else []))
   \<subseteq> set ((if A then [] else [x]) @ (if B then [] else [y]))"
  using assms by (cases D; cases L) simp_all

lemma expected_name_errors_subset:
  "set (expected_name_errors p l v) \<subseteq> set (reported_name_errors p l v)"
proof -
  have 1: "list_ex isDigit (toString v) \<longrightarrow> \<not> isAlpha (trim (toString v))"
    using digit_not_alpha by blast
  have 2: "length (trim (toString v)) = 0 \<or> 10 < length (trim (toString v))
      \<longrightarrow> \<not> isLength 1 10 (trim (toString v))"
    by (auto simp: isLength_def)
  show ?thesis
    unfolding expected_name_errors_def reported_name_errors_def
    using 1 2 by (rule two_errors_subset)
qed

lemma invalid_names_errors:
  assumes "invalid_name (body_get b ''firstName'') \<or> invalid_name (body_get b ''lastName'')"
  shows "snd (runChains (validateUser isEmail) b) \<noteq> []"
  using assms invalid_name_reported[of "body_get b ''firstName''" "''firstName''" "''First name''"]
    invalid_name_reported[of "body_get b ''lastName''" "''lastName''" "''Last name''"]
  unfolding validateUser_reported by auto

lemma expected_firstName_reported:
  "set (expected_name_errors ''firstName'' ''First name'' (body_get b ''firstName''))
   \<subseteq> set (snd (runChains (validateUser isEmail) b))"
  using expected_name_errors_subset[of "''firstName''" "''First name''" "body_get b ''firstName''"]
  unfolding validateUser_reported by auto

lemma expected_lastName_reported:
  "set (expected_name_errors ''lastName'' ''Last name'' (body_get b ''lastName''))
   \<subseteq> set (snd (runChains (validateUser isEmail) b))"
  using expected_name_errors_subset[of "''lastName''" "''Last name''" "body_get b ''lastName''"]
  unfolding validateUser_reported by auto

lemma usersCreatePost_errors:
  "snd (runChains (validateUser isEmail) b) \<noteq> [] \<Longrightarrow>
   usersCreatePost isEmail b s =
     (Render 400 ''createUser''
        \<lparr>title = ''Create user'', users = None, user = None,
         errors = Some (snd (runChains (validateUser isEmail) b)), message = None\<rparr>, s)"
  by (simp add: usersCreatePost_def split_beta)

lemma usersUpdatePost_errors:
  "snd (runChains (validateUser isEmail) b) \<noteq> [] \<Longrightarrow>
   usersUpdatePost isEmail i b s =
     (Render 400 ''updateUser''
        \<lparr>title = ''Update user'', users = None, user = Some (getUser i s),
         errors = Some (snd (runChains (validateUser isEmail) b)), message = None\<rparr>, s)"
  by (simp add: usersUpdatePost_def split_beta Let_def)

lemma valid_name_passes:
  assumes "valid_name n"
  shows "isAlpha (trim n)" and "isLength 1 10 (trim n)" and "trim n = n"
proof -
  from assms have l: "list_all isLetter n" and ne: "n \<noteq> []" and le: "length n \<le> 10"
    by (auto simp: valid_name_def)
  from l show t: "trim n = n" by (rule trim_alpha)
  from l ne t show "isAlpha (trim n)" by (simp add: isAlpha_def)
  from ne le t show "isLength 1 10 (trim n)"
    by (cases n) (simp_all add: isLength_def)
qed

lemma valid_name_reported: "valid_name n \<Longrightarrow> reported_name_errors p l (Str n) = []"
  using valid_name_passes[of n] by (simp add: reported_name_errors_def)

lemma others_pass_reported: "others_pass isEmail b \<Longrightarrow> reported_other_errors isEmail b = []"
  by (auto simp: others_pass_def reported_other_errors_def isLength_def)

lemma usersCreatePost_valid:
  assumes "body_get b ''firstName'' = Str fn" and "valid_name fn"
    and "body_get b ''lastName'' = Str ln" and "valid_name ln"
    and "others_pass isEmail b"
  shows "usersCreatePost isEmail b s =
     (Redirect 302 ''/'',
      addUser \<lparr>firstName = Str fn, lastName = Str ln,
         email = Str (trim (toString (body_get b ''email''))),
         age = (if body_get b ''age'' = Undefined then Undefined
                else parseInt (trim (toString (body_get b ''age'')))),
         bio = (if body_get b ''bio'' = Undefined then Undefined
                else Str (trim (toString (body_get b ''bio''))))\<rparr> s)"
proof -
  have e: "snd (runChains (validateUser isEmail) b) = []"
    unfolding validateUser_reported
    using assms by (simp add: valid_name_reported others_pass_reported)
  have d: "destructure (fst (runChains (validateUser isEmail) b)) =
      \<lparr>firstName = Str fn, lastName = Str ln,
         email = Str (trim (toString (body_get b ''email''))),
         age = (if body_get b ''age'' = Undefined then Undefined
                else parseInt (trim (toString (body_get b ''age'')))),
         bio = (if body_get b ''bio'' = Undefined then Undefined
                else Str (trim (toString (body_get b ''bio''))))\<rparr>"
    unfolding validateUser_body
    using assms(1,3) valid_name_passes(3)[OF assms(2)] valid_name_passes(3)[OF assms(4)] by simp
  show ?thesis
    using e d by (simp add: usersCreatePost_def split_beta)
qed

section \<open>Routing\<close>

lemma lower_search: "toLowerCase ''search'' = ''search''" by code_simp

lemma lower_create: "toLowerCase ''create'' = ''create''" by code_simp

lemma lower_update: "toLowerCase ''update'' = ''update''" by code_simp

lemma lower_delete: "toLowerCase ''delete'' = ''delete''" by code_simp

lemma userSearchGet_QAbsent: "userSearchGet QAbsent s = Inl TypeError"
  by (simp add: userSearchGet_def)

lemma dispatch_search_QAbsent: "dispatch isEmail usersRouter_part_000
     \<lparr>req_method = GET, req_path = [''search''], req_body = b, req_query_name = QAbsent\<rparr> s =
   (Threw TypeError, s)"
  by (simp add: usersRouter_part_000_def userSearchGet_QAbsent lower_search lower_create)

lemma dispatch_delete_part_000:
  "dispatch isEmail usersRouter_part_000
     \<lparr>req_method = POST, req_path = [i, ''delete''], req_body = b, req_query_name = q\<rparr> s =
   (NotFound, s)"
  by (simp add: usersRouter_part_000_def lower_create lower_update lower_delete lower_search)

lemma dispatch_delete_usersRouter:
  "dispatch isEmail usersRouter
     \<lparr>req_method = POST, req_path = [i, ''delete''], req_body = b, req_query_name = q\<rparr> s =
   (NotFound, s)"
  by (simp add: usersRouter_def)

section \<open>Evaluations at concrete inputs\<close>

lemma valid_Anna: "valid_name ''Anna''" by (simp add: valid_name_def isLetter_def)

lemma valid_Smith: "valid_name ''Smith''" by (simp add: valid_name_def isLetter_def)

lemma valid_Bob: "valid_name ''Bob''" by (simp add: valid_name_def isLetter_def)

lemma valid_Jones: "valid_name ''Jones''" by (simp add: valid_name_def isLetter_def)

lemma trim_anna_mail: "trim ''anna@example.org'' = ''anna@example.org''" by code_simp

lemma trim_bob_mail: "trim ''bob@example.org'' = ''bob@example.org''" by code_simp

lemma digits_Suc_0: "digits (Suc 0) = ''1''" by code_simp

lemma others_Anna:
  "others_pass (\<lambda>e. CHR ''@'' \<in> set e)
     [''firstName'' \<mapsto> Str ''Anna'', ''lastName'' \<mapsto> Str ''Smith'',
      ''email'' \<mapsto> Str ''anna@example.org'']"
  by (simp add: others_pass_def body_get_def trim_anna_mail)

lemma others_Bob:
  "others_pass (\<lambda>e. CHR ''@'' \<in> set e)
     [''firstName'' \<mapsto> Str ''Bob'', ''lastName'' \<mapsto> Str ''Jones'',
      ''email'' \<mapsto> Str ''bob@example.org'']"
  by (simp add: others_pass_def body_get_def trim_bob_mail)

lemma create_Anna:
  "usersCreatePost (\<lambda>e. CHR ''@'' \<in> set e)
     [''firstName'' \<mapsto> Str ''Anna'', ''lastName'' \<mapsto> Str ''Smith'',
      ''email'' \<mapsto> Str ''anna@example.org''] s =
   (Redirect 302 ''/'',
    addUser \<lparr>firstName = Str ''Anna'', lastName = Str ''Smith'',
      email = Str ''anna@example.org'', age = Undefined, bio = Undefined\<rparr> s)"
  using usersCreatePost_valid[OF _ valid_Anna _ valid_Smith others_Anna, of s]
  by (simp add: body_get_def trim_anna_mail)

lemma create_Bob:
  "usersCreatePost (\<lambda>e. CHR ''@'' \<in> set e)
     [''firstName'' \<mapsto> Str ''Bob'', ''lastName'' \<mapsto> Str ''Jones'',
      ''email'' \<mapsto> Str ''bob@example.org''] s =
   (Redirect 302 ''/'',
    addUser \<lparr>firstName = Str ''Bob'', lastName = Str ''Jones'',
      email = Str ''bob@example.org'', age = Undefined, bio = Undefined\<rparr> s)"
  using usersCreatePost_valid[OF _ valid_Bob _ valid_Jones others_Bob, of s]
  by (simp add: body_get_def trim_bob_mail)

lemma Anna_Bob_store:
  "addUser \<lparr>firstName = Str ''Bob'', lastName = Str ''Jones'',
      email = Str ''bob@example.org'', age = Undefined, bio = Undefined\<rparr>
    (addUser \<lparr>firstName = Str ''Anna'', lastName = Str ''Smith'',
      email = Str ''anna@example.org'', age = Undefined, bio = Undefined\<rparr> constructor) =
   \<lparr>storage =
      [(''0'', \<lparr>firstName = Str ''Anna'', lastName = Str ''Smith'',
          email = Str ''anna@example.org'', age = Undefined, bio = Undefined, id' = Num 0\<rparr>),
       (''1'', \<lparr>firstName = Str ''Bob'', lastName = Str ''Jones'',
          email = Str ''bob@example.org'', age = Undefined, bio = Undefined, id' = Num 1\<rparr>)],
    proto = None, this_id = 2\<rparr>"
  by (simp add: addUser_def Let_def storage_set_def constructor_def numberToString_def
      postIncrement_def digits_0 digits_Suc_0 mk_user_def)

lemma lower_Anna: "toLowerCase ''Anna'' = ''anna''" by code_simp

lemma lower_Smith: "toLowerCase ''Smith'' = ''smith''" by code_simp

lemma lower_Bob: "toLowerCase ''Bob'' = ''bob''" by code_simp

lemma lower_Jones: "toLowerCase ''Jones'' = ''jones''" by code_simp

lemma lower_an: "toLowerCase (trim ''an'') = ''an''" by code_simp

lemma lower_zz: "toLowerCase (trim ''zz'') = ''zz''" by code_simp

lemma sub_an:
  "sublist ''an'' ''anna''" "\<not> sublist ''an'' ''smith''"
  "\<not> sublist ''an'' ''bob''" "\<not> sublist ''an'' ''jones''"
  by (simp_all add: sublist_Cons_right)

lemma sub_zz:
  "\<not> sublist ''zz'' ''anna''" "\<not> sublist ''zz'' ''smith''"
  "\<not> sublist ''zz'' ''bob''" "\<not> sublist ''zz'' ''jones''"
  by (simp_all add: sublist_Cons_right)

lemma isArrayIndex_0_1: "isArrayIndex ''0''" "isArrayIndex ''1''"
  by (simp_all add: isArrayIndex_def digits_val_def digits_0 digits_Suc_0)

lemma digits_val_0_1: "digits_val ''0'' = 0" "digits_val ''1'' = 1"
  by (simp_all add: digits_val_def)

lemma getUsers_Anna_Bob:
  "getUsers
     \<lparr>storage =
      [(''0'', \<lparr>firstName = Str ''Anna'', lastName = Str ''Smith'',
          email = Str ''anna@example.org'', age = Undefined, bio = Undefined, id' = Num 0\<rparr>),
       (''1'', \<lparr>firstName = Str ''Bob'', lastName = Str ''Jones'',
          email = Str ''bob@example.org'', age = Undefined, bio = Undefined, id' = Num 1\<rparr>)],
    proto = None, this_id = 2\<rparr> =
   [\<lparr>firstName = Str ''Anna'', lastName = Str ''Smith'',
          email = Str ''anna@example.org'', age = Undefined, bio = Undefined, id' = Num 0\<rparr>,
    \<lparr>firstName = Str ''Bob'', lastName = Str ''Jones'',
          email = Str ''bob@example.org'', age = Undefined, bio = Undefined, id' = Num 1\<rparr>]"
  by (simp add: getUsers_def ownPropertyOrder_def isArrayIndex_0_1 digits_val_0_1)

lemma search_an:
  "search_spec ''an''
     \<lparr>storage =
      [(''0'', \<lparr>firstName = Str ''Anna'', lastName = Str ''Smith'',
          email = Str ''anna@example.org'', age = Undefined, bio = Undefined, id' = Num 0\<rparr>),
       (''1'', \<lparr>firstName = Str ''Bob'', lastName = Str ''Jones'',
          email = Str ''bob@example.org'', age = Undefined, bio = Undefined, id' = Num 1\<rparr>)],
    proto = None, this_id = 2\<rparr> =
   [\<lparr>firstName = Str ''Anna'', lastName = Str ''Smith'',
          email = Str ''anna@example.org'', age = Undefined, bio = Undefined, id' = Num 0\<rparr>]"
  unfolding search_spec_def getUsers_Anna_Bob lower_an
  by (simp add: name_contains_def lower_Anna lower_Smith lower_Bob lower_Jones sub_an)

lemma search_zz:
  "search_spec ''zz''
     \<lparr>storage =
      [(''0'', \<lparr>firstName = Str ''Anna'', lastName = Str ''Smith'',
          email = Str ''anna@example.org'', age = Undefined, bio = Undefined, id' = Num 0\<rparr>),
       (''1'', \<lparr>firstName = Str ''Bob'', lastName = Str ''Jones'',
          email = Str ''bob@example.org'', age = Undefined, bio = Undefined, id' = Num 1\<rparr>)],
    proto = None, this_id = 2\<rparr> = []"
  unfolding search_spec_def getUsers_Anna_Bob lower_zz
  by (simp add: name_contains_def lower_Anna lower_Smith lower_Bob lower_Jones sub_zz)

lemma trim_B0b: "trim ''B0b'' = ''B0b''" by code_simp

lemma invalid_B0b: "invalid_name (Str ''B0b'')"
  by (simp add: invalid_name_def isDigit_def)

lemma expected_B0b:
  "expected_name_errors ''firstName'' ''First name'' (Str ''B0b'') =
     [\<lparr>path = ''firstName'', msg = ''First name must only contain letters.''\<rparr>]"
  by (simp add: expected_name_errors_def isDigit_def trim_B0b)

lemma exec_Ann_deleted:
  "exec [Add \<lparr>firstName = Str ''Ann'', lastName = Str ''Lee'',
        email = Str ''ann@example.org'', age = Undefined, bio = Undefined\<rparr>, Delete (Num 0)]
     constructor = \<lparr>storage = [], proto = None, this_id = 1\<rparr>"
  by (simp add: addUser_def Let_def storage_set_def deleteUser_def constructor_def
      numberToString_def digits_0 postIncrement_def)

lemma names_Anna_Bob:
  "names_inv
     (addUser \<lparr>firstName = Str ''Bob'', lastName = Str ''Jones'',
        email = Str ''bob@example.org'', age = Undefined, bio = Undefined\<rparr>
       (addUser \<lparr>firstName = Str ''Anna'', lastName = Str ''Smith'',
          email = Str ''anna@example.org'', age = Undefined, bio = Undefined\<rparr> constructor))"
  unfolding Anna_Bob_store by (simp add: names_inv_def has_names_def)

section \<open>The claims\<close>

text \<open>
  Claim C1 says that \<open>update(id, fields)\<close> on an id that is not in the store leaves
  it absent. \<open>updateUser\<close> assigns \<open>this.storage[id]\<close> without looking, so the write
  creates the record: on the empty store, after \<open>updateUser("7", \<dots>)\<close> the lookup of
  \<open>"7"\<close> returns the new record.
\<close>

theorem update_absent_id_counterexample:
  "getUser (Str ''7'') constructor = Value Undefined \<and>
   getUser (Str ''7'')
     (updateUser (Str ''7'')
        \<lparr>firstName = Str ''Ann'', lastName = Str ''Lee'', email = Str ''ann@example.org'',
         age = Undefined, bio = Undefined\<rparr> constructor) =
   Rec \<lparr>firstName = Str ''Ann'', lastName = Str ''Lee'', email = Str ''ann@example.org'',
        age = Undefined, bio = Undefined, id' = Str ''7''\<rparr>"
  by (simp add: getUser_def updateUser_def storage_get_def storage_set_def constructor_def
      objectPrototype_get_def objectPrototype_names_def mk_user_def)

text \<open>
  Claim C1, amended: for every id that is not in the store, \<open>update(id, fields)\<close>
  creates a record under that id; a subsequent \<open>get(id)\<close> returns the record made of
  the fields and the id, and (unless the key is \<open>__proto__\<close>) the record is listed.
\<close>

theorem update_absent_id_creates:
  "map_of (storage s) (toPropertyKey i) = None \<Longrightarrow>
   getUser i (updateUser i f s) =
     Rec \<lparr>firstName = firstName f, lastName = lastName f, email = email f, age = age f,
          bio = bio f, id' = i\<rparr>
   \<and> (toPropertyKey i \<noteq> ''__proto__'' \<longrightarrow>
        \<lparr>firstName = firstName f, lastName = lastName f, email = email f, age = age f,
         bio = bio f, id' = i\<rparr> \<in> set (getUsers (updateUser i f s)))"
  using getUser_updateUser[of i f s] in_getUsers_storage_set[of "toPropertyKey i" "mk_user i f" s]
  by (simp add: mk_user_def updateUser_def)

theorem update_absent_id_creates_witness:
  "map_of (storage constructor) (toPropertyKey (Str ''7'')) = None \<and>
   toPropertyKey (Str ''7'') \<noteq> ''__proto__'' \<and>
   getUser (Str ''7'')
     (updateUser (Str ''7'')
        \<lparr>firstName = Str ''Ann'', lastName = Str ''Lee'', email = Str ''ann@example.org'',
         age = Undefined, bio = Undefined\<rparr> constructor) =
   Rec \<lparr>firstName = Str ''Ann'', lastName = Str ''Lee'', email = Str ''ann@example.org'',
        age = Undefined, bio = Undefined, id' = Str ''7''\<rparr> \<and>
   \<lparr>firstName = Str ''Ann'', lastName = Str ''Lee'', email = Str ''ann@example.org'',
        age = Undefined, bio = Undefined, id' = Str ''7''\<rparr> \<in> set (getUsers
     (updateUser (Str ''7'')
        \<lparr>firstName = Str ''Ann'', lastName = Str ''Lee'', email = Str ''ann@example.org'',
         age = Undefined, bio = Undefined\<rparr> constructor))"
proof -
  have h: "map_of (storage constructor) (toPropertyKey (Str ''7'')) = None"
    by (simp add: constructor_def)
  show ?thesis
    using h update_absent_id_creates[OF h,
        of "\<lparr>firstName = Str ''Ann'', lastName = Str ''Lee'', email = Str ''ann@example.org'',
         age = Undefined, bio = Undefined\<rparr>"]
    by simp
qed

text \<open>
  Claim C2 says that a POST to \<open>/{id}/delete\<close> removes the record and redirects to
  \<open>/\<close>. The route is registered without a handler, so the request reaches none: with
  one record in the store, under id 0, \<open>POST /0/delete\<close> is not answered by the router
  and leaves the record in place, whereas \<open>userDeletePost\<close>, had it been called, would
  have removed it.
\<close>

theorem delete_route_reaches_no_handler:
  "dispatch isEmail usersRouter_part_000
     \<lparr>req_method = POST, req_path = [''0'', ''delete''], req_body = Map.empty,
      req_query_name = QAbsent\<rparr>
     (addUser \<lparr>firstName = Str ''Ann'', lastName = Str ''Lee'', email = Str ''ann@example.org'',
         age = Undefined, bio = Undefined\<rparr> constructor) =
   (NotFound,
    addUser \<lparr>firstName = Str ''Ann'', lastName = Str ''Lee'', email = Str ''ann@example.org'',
         age = Undefined, bio = Undefined\<rparr> constructor)
   \<and> getUser (Str ''0'')
       (addUser \<lparr>firstName = Str ''Ann'', lastName = Str ''Lee'', email = Str ''ann@example.org'',
         age = Undefined, bio = Undefined\<rparr> constructor) =
     Rec \<lparr>firstName = Str ''Ann'', lastName = Str ''Lee'', email = Str ''ann@example.org'',
         age = Undefined, bio = Undefined, id' = Num 0\<rparr>
   \<and> getUser (Str ''0'')
       (snd (userDeletePost (Str ''0'')
         (addUser \<lparr>firstName = Str ''Ann'', lastName = Str ''Lee'', email = Str ''ann@example.org'',
           age = Undefined, bio = Undefined\<rparr> constructor))) = Value Undefined"
proof -
  let ?s = "addUser \<lparr>firstName = Str ''Ann'', lastName = Str ''Lee'', email = Str ''ann@example.org'',
         age = Undefined, bio = Undefined\<rparr> constructor"
  have 1: "getUser (Str ''0'') ?s = Rec \<lparr>firstName = Str ''Ann'', lastName = Str ''Lee'', email = Str ''ann@example.org'',
         age = Undefined, bio = Undefined, id' = Num 0\<rparr>"
    using getUser_addUser[of constructor "\<lparr>firstName = Str ''Ann'', lastName = Str ''Lee'', email = Str ''ann@example.org'',
         age = Undefined, bio = Undefined\<rparr>"]
    by (simp add: constructor_def getUser_def numberToString_def digits_0 mk_user_def)
  have 2: "getUser (Str ''0'') (snd (userDeletePost (Str ''0'') ?s)) = Value Undefined"
    by (simp add: userDeletePost_def getUser_deleteUser addUser_def Let_def storage_set_def
        constructor_def objectPrototype_get_def objectPrototype_names_def numberToString_def
        digits_0)
  from 1 2 dispatch_delete_part_000 show ?thesis by simp
qed

text \<open>
  Claim C3 says that in every state reached by any sequence of add, update and delete the
  record ids are pairwise distinct, ids are assigned in strictly increasing order, and an
  id is never assigned again after the record holding it is deleted. \<open>updateUser\<close> files
  a record under any id it is given: after an add, the deletion of id 0 and an update of
  id \<open>"0"\<close>, the id 0 has been given to a new record a second time, and the lookup of 0
  finds that record.
\<close>

theorem deleted_id_assigned_again:
  "new_ids [Add \<lparr>firstName = Str ''Ann'', lastName = Str ''Lee'',
        email = Str ''ann@example.org'', age = Undefined, bio = Undefined\<rparr>,
      Delete (Num 0),
      Update (Str ''0'') \<lparr>firstName = Str ''Bob'', lastName = Str ''Ray'',
        email = Str ''bob@example.org'', age = Undefined, bio = Undefined\<rparr>] constructor =
     [Num 0, Str ''0'']
   \<and> map toPropertyKey [Num 0, Str ''0''] = [''0'', ''0'']
   \<and> getUser (Num 0)
       (exec [Add \<lparr>firstName = Str ''Ann'', lastName = Str ''Lee'',
          email = Str ''ann@example.org'', age = Undefined, bio = Undefined\<rparr>,
        Delete (Num 0),
        Update (Str ''0'') \<lparr>firstName = Str ''Bob'', lastName = Str ''Ray'',
          email = Str ''bob@example.org'', age = Undefined, bio = Undefined\<rparr>] constructor) =
     Rec \<lparr>firstName = Str ''Bob'', lastName = Str ''Ray'',
          email = Str ''bob@example.org'', age = Undefined, bio = Undefined, id' = Str ''0''\<rparr>"
  by (simp add: created_def own_keys_def addUser_def Let_def storage_set_def deleteUser_def
      updateUser_def constructor_def numberToString_def digits_0 postIncrement_def mk_user_def
      getUser_def storage_get_def)

text \<open>
  Claim C3, amended: in every state reached from the initial store by any sequence of add,
  update and delete, the ids of the records are pairwise distinct. Along a sequence in
  which every update addresses an id that is in the store and every add happens while the
  counter is below \<open>2 ^ 53\<close>, the ids given to new records are numbers in strictly
  increasing order, all below the counter; so no id is given to a record a second time,
  whether or not the record that held it has been deleted.
\<close>

theorem ids_distinct_and_increasing:
  "distinct (map id' (getUsers (exec ops constructor)))
   \<and> (guarded ops constructor \<longrightarrow>
        (\<exists>ns. new_ids ops constructor = map (\<lambda>n. Num (int n)) ns \<and> sorted_wrt (<) ns
           \<and> (\<forall>n \<in> set ns. n < this_id (exec ops constructor))))"
proof -
  have 1: "distinct (map id' (getUsers (exec ops constructor)))"
    by (rule distinct_ids_getUsers[OF store_inv_exec[OF store_inv_constructor]])
  have 2: "guarded ops constructor \<longrightarrow>
        (\<exists>ns. new_ids ops constructor = map (\<lambda>n. Num (int n)) ns \<and> sorted_wrt (<) ns
           \<and> (\<forall>n \<in> set ns. n < this_id (exec ops constructor)))"
    using new_ids_guarded[OF _ ids_below_constructor, of ops] by blast
  from 1 2 show ?thesis by blast
qed

theorem ids_distinct_and_increasing_witness:
  "guarded [Add \<lparr>firstName = Str ''Ann'', lastName = Str ''Lee'',
        email = Str ''ann@example.org'', age = Undefined, bio = Undefined\<rparr>,
      Delete (Num 0),
      Add \<lparr>firstName = Str ''Bob'', lastName = Str ''Ray'',
        email = Str ''bob@example.org'', age = Undefined, bio = Undefined\<rparr>] constructor
   \<and> new_ids [Add \<lparr>firstName = Str ''Ann'', lastName = Str ''Lee'',
        email = Str ''ann@example.org'', age = Undefined, bio = Undefined\<rparr>,
      Delete (Num 0),
      Add \<lparr>firstName = Str ''Bob'', lastName = Str ''Ray'',
        email = Str ''bob@example.org'', age = Undefined, bio = Undefined\<rparr>] constructor =
     [Num 0, Num 1]
   \<and> (\<exists>ns. new_ids [Add \<lparr>firstName = Str ''Ann'', lastName = Str ''Lee'',
        email = Str ''ann@example.org'', age = Undefined, bio = Undefined\<rparr>,
      Delete (Num 0),
      Add \<lparr>firstName = Str ''Bob'', lastName = Str ''Ray'',
        email = Str ''bob@example.org'', age = Undefined, bio = Undefined\<rparr>] constructor =
       map (\<lambda>n. Num (int n)) ns \<and> sorted_wrt (<) ns)"
proof -
  let ?ops = "[Add \<lparr>firstName = Str ''Ann'', lastName = Str ''Lee'',
        email = Str ''ann@example.org'', age = Undefined, bio = Undefined\<rparr>,
      Delete (Num 0),
      Add \<lparr>firstName = Str ''Bob'', lastName = Str ''Ray'',
        email = Str ''bob@example.org'', age = Undefined, bio = Undefined\<rparr>]"
  have g: "guarded ?ops constructor"
    by (simp add: own_keys_def addUser_def Let_def storage_set_def deleteUser_def
      constructor_def numberToString_def digits_0 postIncrement_def)
  have e: "new_ids ?ops constructor = [Num 0, Num 1]"
    by (simp add: created_def own_keys_def addUser_def Let_def storage_set_def deleteUser_def
      constructor_def numberToString_def digits_0 digits_Suc_0 postIncrement_def mk_user_def)
  from ids_distinct_and_increasing[of ?ops] g e show ?thesis by blast
qed

text \<open>
  Claim C4: for every create or update submission in which the first or the last name holds
  a digit, or has trimmed length 0, or trimmed length above 10, the handler answers with
  status 400 and the form, reports among its errors the message that belongs to the
  violation (\<open>must only contain letters.\<close> for a digit,
  \<open>must be between 1 and 10 characters.\<close> for the length, under the field's name), and
  returns the store as it was.
\<close>

theorem invalid_name_rejected:
  assumes "invalid_name (body_get b ''firstName'') \<or> invalid_name (body_get b ''lastName'')"
  shows "\<exists>errs. errs \<noteq> []
     \<and> set (expected_name_errors ''firstName'' ''First name'' (body_get b ''firstName'')) \<subseteq> set errs
     \<and> set (expected_name_errors ''lastName'' ''Last name'' (body_get b ''lastName'')) \<subseteq> set errs
     \<and> usersCreatePost isEmail b s =
         (Render 400 ''createUser''
            \<lparr>title = ''Create user'', users = None, user = None, errors = Some errs,
             message = None\<rparr>, s)
     \<and> usersUpdatePost isEmail i b s =
         (Render 400 ''updateUser''
            \<lparr>title = ''Update user'', users = None, user = Some (getUser i s),
             errors = Some errs, message = None\<rparr>, s)"
proof -
  let ?errs = "snd (runChains (validateUser isEmail) b)"
  have ne: "?errs \<noteq> []" using assms by (rule invalid_names_errors)
  show ?thesis
    using ne expected_firstName_reported[of b isEmail] expected_lastName_reported[of b isEmail]
      usersCreatePost_errors[OF ne, of s] usersUpdatePost_errors[OF ne, of i s]
    by blast
qed

theorem invalid_name_rejected_witness:
  "invalid_name (body_get [''firstName'' \<mapsto> Str ''B0b'', ''lastName'' \<mapsto> Str ''Lee'',
       ''email'' \<mapsto> Str ''bob@example.org''] ''firstName'')
   \<and> (\<exists>errs.
        \<lparr>path = ''firstName'', msg = ''First name must only contain letters.''\<rparr> \<in> set errs
      \<and> usersCreatePost (\<lambda>e. CHR ''@'' \<in> set e)
          [''firstName'' \<mapsto> Str ''B0b'', ''lastName'' \<mapsto> Str ''Lee'',
           ''email'' \<mapsto> Str ''bob@example.org''] constructor =
         (Render 400 ''createUser''
            \<lparr>title = ''Create user'', users = None, user = None, errors = Some errs,
             message = None\<rparr>, constructor)
      \<and> usersUpdatePost (\<lambda>e. CHR ''@'' \<in> set e) (Str ''0'')
          [''firstName'' \<mapsto> Str ''B0b'', ''lastName'' \<mapsto> Str ''Lee'',
           ''email'' \<mapsto> Str ''bob@example.org''] constructor =
         (Render 400 ''updateUser''
            \<lparr>title = ''Update user'', users = None,
             user = Some (getUser (Str ''0'') constructor), errors = Some errs,
             message = None\<rparr>, constructor))"
proof -
  let ?b = "[''firstName'' \<mapsto> Str ''B0b'', ''lastName'' \<mapsto> Str ''Lee'',
       ''email'' \<mapsto> Str ''bob@example.org'']"
  have g: "body_get ?b ''firstName'' = Str ''B0b''" by (simp add: body_get_def)
  have h: "invalid_name (body_get ?b ''firstName'')" by (simp only: g invalid_B0b)
  from invalid_name_rejected[OF disjI1[OF h], of "\<lambda>e. CHR ''@'' \<in> set e" constructor "Str ''0''"]
  obtain errs where
    1: "set (expected_name_errors ''firstName'' ''First name'' (body_get ?b ''firstName'')) \<subseteq> set errs"
    and 2: "usersCreatePost (\<lambda>e. CHR ''@'' \<in> set e) ?b constructor =
         (Render 400 ''createUser''
            \<lparr>title = ''Create user'', users = None, user = None, errors = Some errs,
             message = None\<rparr>, constructor)"
    and 3: "usersUpdatePost (\<lambda>e. CHR ''@'' \<in> set e) (Str ''0'') ?b constructor =
         (Render 400 ''updateUser''
            \<lparr>title = ''Update user'', users = None,
             user = Some (getUser (Str ''0'') constructor), errors = Some errs,
             message = None\<rparr>, constructor)"
    by blast
  from 1 have 4: "\<lparr>path = ''firstName'', msg = ''First name must only contain letters.''\<rparr> \<in> set errs"
    by (simp only: g expected_B0b) simp
  from h 2 3 4 show ?thesis by blast
qed

text \<open>
  Claim C5: for every id present in the store and every set of fields,
  \<open>update(id, fields)\<close> followed by \<open>get(id)\<close> returns exactly the record made of the
  new fields and the id; nothing of the record stored before enters the result.
\<close>

theorem update_replaces_wholesale:
  "map_of (storage s) (toPropertyKey i) = Some old \<Longrightarrow>
   getUser i (updateUser i f s) =
     Rec \<lparr>firstName = firstName f, lastName = lastName f, email = email f, age = age f,
          bio = bio f, id' = i\<rparr>"
  using getUser_updateUser[of i f s] by (simp add: mk_user_def)

theorem update_replaces_wholesale_witness:
  "map_of (storage (addUser \<lparr>firstName = Str ''Ann'', lastName = Str ''Lee'',
        email = Str ''ann@example.org'', age = Num 30, bio = Str ''hello''\<rparr> constructor))
      (toPropertyKey (Str ''0'')) =
     Some \<lparr>firstName = Str ''Ann'', lastName = Str ''Lee'',
        email = Str ''ann@example.org'', age = Num 30, bio = Str ''hello'', id' = Num 0\<rparr>
   \<and> getUser (Str ''0'')
       (updateUser (Str ''0'') \<lparr>firstName = Str ''Bob'', lastName = Str ''Ray'',
           email = Str ''bob@example.org'', age = Undefined, bio = Undefined\<rparr>
         (addUser \<lparr>firstName = Str ''Ann'', lastName = Str ''Lee'',
           email = Str ''ann@example.org'', age = Num 30, bio = Str ''hello''\<rparr> constructor)) =
     Rec \<lparr>firstName = Str ''Bob'', lastName = Str ''Ray'',
           email = Str ''bob@example.org'', age = Undefined, bio = Undefined, id' = Str ''0''\<rparr>"
proof -
  have h: "map_of (storage (addUser \<lparr>firstName = Str ''Ann'', lastName = Str ''Lee'',
        email = Str ''ann@example.org'', age = Num 30, bio = Str ''hello''\<rparr> constructor))
      (toPropertyKey (Str ''0'')) =
     Some \<lparr>firstName = Str ''Ann'', lastName = Str ''Lee'',
        email = Str ''ann@example.org'', age = Num 30, bio = Str ''hello'', id' = Num 0\<rparr>"
    by (simp add: addUser_def Let_def storage_set_def constructor_def numberToString_def
        digits_0 mk_user_def)
  show ?thesis
    using h update_replaces_wholesale[OF h, of "\<lparr>firstName = Str ''Bob'', lastName = Str ''Ray'',
           email = Str ''bob@example.org'', age = Undefined, bio = Undefined\<rparr>"]
    by simp
qed

text \<open>
  Claim C6 says that a valid create gives the new record an id strictly greater than every
  id assigned before. The id is the counter, and \<open>updateUser\<close> files records without
  moving the counter: after an update of the absent id \<open>"0"\<close> the store lists that
  record, a valid create then takes the id 0 as well, and the record it stores replaces
  the listed one.
\<close>

theorem create_overwrites_upserted_record:
  "new_ids [Update (Str ''0'') \<lparr>firstName = Str ''Ann'', lastName = Str ''Lee'',
        email = Str ''ann@example.org'', age = Undefined, bio = Undefined\<rparr>] constructor =
     [Str ''0'']
   \<and> getUsers (exec [Update (Str ''0'') \<lparr>firstName = Str ''Ann'', lastName = Str ''Lee'',
        email = Str ''ann@example.org'', age = Undefined, bio = Undefined\<rparr>] constructor) =
     [\<lparr>firstName = Str ''Ann'', lastName = Str ''Lee'',
        email = Str ''ann@example.org'', age = Undefined, bio = Undefined, id' = Str ''0''\<rparr>]
   \<and> fst (usersCreatePost (\<lambda>e. CHR ''@'' \<in> set e)
        [''firstName'' \<mapsto> Str ''Bob'', ''lastName'' \<mapsto> Str ''Jones'',
         ''email'' \<mapsto> Str ''bob@example.org'']
        (exec [Update (Str ''0'') \<lparr>firstName = Str ''Ann'', lastName = Str ''Lee'',
          email = Str ''ann@example.org'', age = Undefined, bio = Undefined\<rparr>] constructor)) =
     Redirect 302 ''/''
   \<and> getUsers (snd (usersCreatePost (\<lambda>e. CHR ''@'' \<in> set e)
        [''firstName'' \<mapsto> Str ''Bob'', ''lastName'' \<mapsto> Str ''Jones'',
         ''email'' \<mapsto> Str ''bob@example.org'']
        (exec [Update (Str ''0'') \<lparr>firstName = Str ''Ann'', lastName = Str ''Lee'',
          email = Str ''ann@example.org'', age = Undefined, bio = Undefined\<rparr>] constructor))) =
     [\<lparr>firstName = Str ''Bob'', lastName = Str ''Jones'',
        email = Str ''bob@example.org'', age = Undefined, bio = Undefined, id' = Num 0\<rparr>]"
proof -
  have g: "\<And>u p n. getUsers \<lparr>storage = [(''0'', u)], proto = p, this_id = n\<rparr> = [u]"
    by (simp add: getUsers_def ownPropertyOrder_def isArrayIndex_0_1 digits_val_0_1)
  show ?thesis
    by (simp add: create_Bob created_def own_keys_def addUser_def Let_def storage_set_def
      updateUser_def constructor_def numberToString_def digits_0 postIncrement_def mk_user_def g)
qed

text \<open>
  Claim C6, amended: for every submission whose first and last name are 1 to 10 letters and
  whose other fields pass their rules, in every state reached from the initial store by
  any sequence of add, update and delete, the create handler redirects to \<open>/\<close>, the
  new record's id is the counter, \<open>getUser\<close> returns the record under that id and
  \<open>getUsers\<close> contains it. If in that sequence every update addressed an id that was in
  the store and every add happened while the counter was below \<open>2 ^ 53\<close>, the id is
  strictly greater than every id given to a record before, and the store lists the new
  record beside all the records it listed.
\<close>

theorem create_assigns_fresh_id:
  fixes b :: body and ops :: "op list" and fn ln :: string
  defines "s \<equiv> exec ops constructor"
  defines "r \<equiv> \<lparr>firstName = Str fn, lastName = Str ln,
         email = Str (trim (toString (body_get b ''email''))),
         age = (if body_get b ''age'' = Undefined then Undefined
                else parseInt (trim (toString (body_get b ''age'')))),
         bio = (if body_get b ''bio'' = Undefined then Undefined
                else Str (trim (toString (body_get b ''bio'')))),
         id' = Num (int (this_id s))\<rparr>"
  assumes "body_get b ''firstName'' = Str fn" and "valid_name fn"
    and "body_get b ''lastName'' = Str ln" and "valid_name ln"
    and "others_pass isEmail b"
  shows "fst (usersCreatePost isEmail b s) = Redirect 302 ''/''
     \<and> getUser (Num (int (this_id s))) (snd (usersCreatePost isEmail b s)) = Rec r
     \<and> r \<in> set (getUsers (snd (usersCreatePost isEmail b s)))
     \<and> (guarded ops constructor \<longrightarrow>
          (\<forall>i \<in> set (new_ids ops constructor). \<exists>m < this_id s. i = Num (int m))
          \<and> set (getUsers (snd (usersCreatePost isEmail b s))) = insert r (set (getUsers s)))"
proof -
  let ?f = "\<lparr>firstName = Str fn, lastName = Str ln,
         email = Str (trim (toString (body_get b ''email''))),
         age = (if body_get b ''age'' = Undefined then Undefined
                else parseInt (trim (toString (body_get b ''age'')))),
         bio = (if body_get b ''bio'' = Undefined then Undefined
                else Str (trim (toString (body_get b ''bio''))))\<rparr>"
  note c = usersCreatePost_valid[OF assms(3-7), of s]
  have m: "mk_user (Num (int (this_id s))) ?f = r" by (simp add: mk_user_def r_def)
  have 1: "fst (usersCreatePost isEmail b s) = Redirect 302 ''/''" by (simp add: c)
  have 2: "getUser (Num (int (this_id s))) (snd (usersCreatePost isEmail b s)) = Rec r"
    using getUser_addUser[of s ?f] by (simp add: c m)
  have 3: "r \<in> set (getUsers (snd (usersCreatePost isEmail b s)))"
    using in_getUsers_addUser[of s ?f] by (simp add: c m)
  have 4: "(\<forall>i \<in> set (new_ids ops constructor). \<exists>m < this_id s. i = Num (int m))
          \<and> set (getUsers (snd (usersCreatePost isEmail b s))) = insert r (set (getUsers s))"
    if g: "guarded ops constructor"
  proof -
    from new_ids_guarded[OF g ids_below_constructor] obtain ns where
      n: "new_ids ops constructor = map (\<lambda>n. Num (int n)) ns"
         "\<forall>n \<in> set ns. n < this_id s" "ids_below s"
      unfolding s_def by blast
    from n(1,2) have a: "\<forall>i \<in> set (new_ids ops constructor). \<exists>m < this_id s. i = Num (int m)"
      by auto
    have "set (getUsers (snd (usersCreatePost isEmail b s))) = insert r (set (getUsers s))"
      using set_getUsers_addUser_fresh[OF n(3), of ?f] by (simp add: c m)
    with a show ?thesis by blast
  qed
  from 1 2 3 4 show ?thesis by blast
qed

theorem create_assigns_fresh_id_witness:
  "body_get [''firstName'' \<mapsto> Str ''Bob'', ''lastName'' \<mapsto> Str ''Jones'',
      ''email'' \<mapsto> Str ''bob@example.org''] ''firstName'' = Str ''Bob''
   \<and> valid_name ''Bob''
   \<and> body_get [''firstName'' \<mapsto> Str ''Bob'', ''lastName'' \<mapsto> Str ''Jones'',
      ''email'' \<mapsto> Str ''bob@example.org''] ''lastName'' = Str ''Jones''
   \<and> valid_name ''Jones''
   \<and> others_pass (\<lambda>e. CHR ''@'' \<in> set e)
        [''firstName'' \<mapsto> Str ''Bob'', ''lastName'' \<mapsto> Str ''Jones'',
         ''email'' \<mapsto> Str ''bob@example.org'']
   \<and> guarded [Add \<lparr>firstName = Str ''Ann'', lastName = Str ''Lee'',
        email = Str ''ann@example.org'', age = Undefined, bio = Undefined\<rparr>, Delete (Num 0)]
        constructor
   \<and> new_ids [Add \<lparr>firstName = Str ''Ann'', lastName = Str ''Lee'',
        email = Str ''ann@example.org'', age = Undefined, bio = Undefined\<rparr>, Delete (Num 0)]
        constructor = [Num 0]
   \<and> fst (usersCreatePost (\<lambda>e. CHR ''@'' \<in> set e)
        [''firstName'' \<mapsto> Str ''Bob'', ''lastName'' \<mapsto> Str ''Jones'',
         ''email'' \<mapsto> Str ''bob@example.org'']
        \<lparr>storage = [], proto = None, this_id = 1\<rparr>) = Redirect 302 ''/''
   \<and> getUser (Num 1)
       (snd (usersCreatePost (\<lambda>e. CHR ''@'' \<in> set e)
        [''firstName'' \<mapsto> Str ''Bob'', ''lastName'' \<mapsto> Str ''Jones'',
         ''email'' \<mapsto> Str ''bob@example.org'']
        \<lparr>storage = [], proto = None, this_id = 1\<rparr>)) =
     Rec \<lparr>firstName = Str ''Bob'', lastName = Str ''Jones'', email = Str ''bob@example.org'',
          age = Undefined, bio = Undefined, id' = Num 1\<rparr>
   \<and> set (getUsers (snd (usersCreatePost (\<lambda>e. CHR ''@'' \<in> set e)
        [''firstName'' \<mapsto> Str ''Bob'', ''lastName'' \<mapsto> Str ''Jones'',
         ''email'' \<mapsto> Str ''bob@example.org'']
        \<lparr>storage = [], proto = None, this_id = 1\<rparr>))) =
     {\<lparr>firstName = Str ''Bob'', lastName = Str ''Jones'', email = Str ''bob@example.org'',
          age = Undefined, bio = Undefined, id' = Num 1\<rparr>}"
proof -
  let ?b = "[''firstName'' \<mapsto> Str ''Bob'', ''lastName'' \<mapsto> Str ''Jones'',
      ''email'' \<mapsto> Str ''bob@example.org'']"
  let ?ops = "[Add \<lparr>firstName = Str ''Ann'', lastName = Str ''Lee'',
        email = Str ''ann@example.org'', age = Undefined, bio = Undefined\<rparr>, Delete (Num 0)]"
  have f: "body_get ?b ''firstName'' = Str ''Bob''" by (simp add: body_get_def)
  have l: "body_get ?b ''lastName'' = Str ''Jones''" by (simp add: body_get_def)
  have m: "body_get ?b ''email'' = Str ''bob@example.org''" by (simp add: body_get_def)
  have a: "body_get ?b ''age'' = Undefined" by (simp add: body_get_def)
  have o: "body_get ?b ''bio'' = Undefined" by (simp add: body_get_def)
  have g: "guarded ?ops constructor"
    by (simp add: own_keys_def addUser_def Let_def storage_set_def deleteUser_def
      constructor_def numberToString_def digits_0 postIncrement_def)
  have n: "new_ids ?ops constructor = [Num 0]"
    by (simp add: created_def own_keys_def addUser_def Let_def storage_set_def deleteUser_def
      constructor_def numberToString_def digits_0 postIncrement_def mk_user_def)
  have e: "getUsers \<lparr>storage = [], proto = None, this_id = 1\<rparr> = []"
    by (simp add: getUsers_def ownPropertyOrder_def)
  note t = create_assigns_fresh_id[OF f valid_Bob l valid_Jones others_Bob, of ?ops,
      unfolded exec_Ann_deleted]
  have c: "fst (usersCreatePost (\<lambda>e. CHR ''@'' \<in> set e) ?b
        \<lparr>storage = [], proto = None, this_id = 1\<rparr>) = Redirect 302 ''/''
   \<and> getUser (Num 1)
       (snd (usersCreatePost (\<lambda>e. CHR ''@'' \<in> set e) ?b
        \<lparr>storage = [], proto = None, this_id = 1\<rparr>)) =
     Rec \<lparr>firstName = Str ''Bob'', lastName = Str ''Jones'', email = Str ''bob@example.org'',
          age = Undefined, bio = Undefined, id' = Num 1\<rparr>
   \<and> set (getUsers (snd (usersCreatePost (\<lambda>e. CHR ''@'' \<in> set e) ?b
        \<lparr>storage = [], proto = None, this_id = 1\<rparr>))) =
     {\<lparr>firstName = Str ''Bob'', lastName = Str ''Jones'', email = Str ''bob@example.org'',
          age = Undefined, bio = Undefined, id' = Num 1\<rparr>}"
    using t g e by (simp add: m a o trim_bob_mail)
  from c f l g n valid_Bob valid_Jones others_Bob show ?thesis by blast
qed

text \<open>
  Claim C7 says that for every store state the search returns the matching records. The
  handler calls \<open>toLowerCase\<close> on the names without looking at them: on the claim's own
  records, \<open>{firstName: "Anna"}\<close> and \<open>{firstName: "Bob"}\<close>, the query \<open>an\<close> reaches
  the missing last name of the second record and throws.
\<close>

theorem search_literal_records_throw:
  "userSearchGet (QString ''an'')
     (addUser \<lparr>firstName = Str ''Bob'', lastName = Undefined, email = Undefined,
        age = Undefined, bio = Undefined\<rparr>
       (addUser \<lparr>firstName = Str ''Anna'', lastName = Undefined, email = Undefined,
          age = Undefined, bio = Undefined\<rparr> constructor)) = Inl TypeError"
proof -
  have s: "addUser \<lparr>firstName = Str ''Bob'', lastName = Undefined, email = Undefined,
        age = Undefined, bio = Undefined\<rparr>
       (addUser \<lparr>firstName = Str ''Anna'', lastName = Undefined, email = Undefined,
          age = Undefined, bio = Undefined\<rparr> constructor) =
     \<lparr>storage =
        [(''0'', \<lparr>firstName = Str ''Anna'', lastName = Undefined, email = Undefined,
            age = Undefined, bio = Undefined, id' = Num 0\<rparr>),
         (''1'', \<lparr>firstName = Str ''Bob'', lastName = Undefined, email = Undefined,
            age = Undefined, bio = Undefined, id' = Num 1\<rparr>)],
      proto = None, this_id = 2\<rparr>"
    by (simp add: addUser_def Let_def storage_set_def constructor_def numberToString_def
      postIncrement_def digits_0 digits_Suc_0 mk_user_def)
  have u: "getUsers \<lparr>storage =
        [(''0'', \<lparr>firstName = Str ''Anna'', lastName = Undefined, email = Undefined,
            age = Undefined, bio = Undefined, id' = Num 0\<rparr>),
         (''1'', \<lparr>firstName = Str ''Bob'', lastName = Undefined, email = Undefined,
            age = Undefined, bio = Undefined, id' = Num 1\<rparr>)],
      proto = None, this_id = 2\<rparr> =
      [\<lparr>firstName = Str ''Anna'', lastName = Undefined, email = Undefined,
            age = Undefined, bio = Undefined, id' = Num 0\<rparr>,
       \<lparr>firstName = Str ''Bob'', lastName = Undefined, email = Undefined,
            age = Undefined, bio = Undefined, id' = Num 1\<rparr>]"
    by (simp add: getUsers_def ownPropertyOrder_def isArrayIndex_0_1 digits_val_0_1)
  show ?thesis
    unfolding s userSearchGet_def
    by (simp add: u lower_an search_match_def lower_Anna lower_Bob includes_js_sublist sub_an)
qed

text \<open>
  Claim C7, amended: for every store state in which every record has a string as first
  name and a string as last name, and for every query string, the search responds with
  exactly the records whose lowercased first name or lowercased last name contains the
  trimmed, lowercased query as a substring. The instance below is the specification's
  example with last names supplied: of Anna Smith and Bob Jones the query \<open>an\<close> returns
  Anna only.
\<close>

theorem search_returns_matches:
  "names_inv s \<Longrightarrow>
   \<exists>r. userSearchGet (QString q) s = Inr r \<and> response_users r = Some (search_spec q s)"
  using userSearchGet_names[of s q]
  by (auto simp: response_users_def)

theorem search_returns_matches_witness:
  "names_inv
     (addUser \<lparr>firstName = Str ''Bob'', lastName = Str ''Jones'',
        email = Str ''bob@example.org'', age = Undefined, bio = Undefined\<rparr>
       (addUser \<lparr>firstName = Str ''Anna'', lastName = Str ''Smith'',
          email = Str ''anna@example.org'', age = Undefined, bio = Undefined\<rparr> constructor))
   \<and> (\<exists>r. userSearchGet (QString ''an'')
         (addUser \<lparr>firstName = Str ''Bob'', lastName = Str ''Jones'',
            email = Str ''bob@example.org'', age = Undefined, bio = Undefined\<rparr>
           (addUser \<lparr>firstName = Str ''Anna'', lastName = Str ''Smith'',
              email = Str ''anna@example.org'', age = Undefined, bio = Undefined\<rparr>
             constructor)) = Inr r
       \<and> response_users r =
           Some [\<lparr>firstName = Str ''Anna'', lastName = Str ''Smith'',
                  email = Str ''anna@example.org'', age = Undefined, bio = Undefined,
                  id' = Num 0\<rparr>])"
proof -
  let ?S = "addUser \<lparr>firstName = Str ''Bob'', lastName = Str ''Jones'',
        email = Str ''bob@example.org'', age = Undefined, bio = Undefined\<rparr>
       (addUser \<lparr>firstName = Str ''Anna'', lastName = Str ''Smith'',
          email = Str ''anna@example.org'', age = Undefined, bio = Undefined\<rparr> constructor)"
  note h = names_Anna_Bob
  have e: "search_spec ''an'' ?S =
      [\<lparr>firstName = Str ''Anna'', lastName = Str ''Smith'',
         email = Str ''anna@example.org'', age = Undefined, bio = Undefined, id' = Num 0\<rparr>]"
    by (simp only: Anna_Bob_store search_an)
  from search_returns_matches[OF h, of "''an''"] h show ?thesis
    by (simp only: e; blast)
qed

text \<open>
  Claim C8 says that every search that matches no record is answered with status 404. With
  one record that has no last name in the store, the query \<open>zz\<close> matches nothing and the
  handler throws instead of answering.
\<close>

theorem search_no_match_throws:
  "userSearchGet (QString ''zz'')
     (addUser \<lparr>firstName = Str ''Bob'', lastName = Undefined, email = Undefined,
        age = Undefined, bio = Undefined\<rparr> constructor) = Inl TypeError"
proof -
  have s: "addUser \<lparr>firstName = Str ''Bob'', lastName = Undefined, email = Undefined,
        age = Undefined, bio = Undefined\<rparr> constructor =
     \<lparr>storage =
        [(''0'', \<lparr>firstName = Str ''Bob'', lastName = Undefined, email = Undefined,
            age = Undefined, bio = Undefined, id' = Num 0\<rparr>)],
      proto = None, this_id = 1\<rparr>"
    by (simp add: addUser_def Let_def storage_set_def constructor_def numberToString_def
      postIncrement_def digits_0 mk_user_def)
  have u: "\<And>n. getUsers \<lparr>storage =
        [(''0'', \<lparr>firstName = Str ''Bob'', lastName = Undefined, email = Undefined,
            age = Undefined, bio = Undefined, id' = Num 0\<rparr>)],
      proto = None, this_id = n\<rparr> =
      [\<lparr>firstName = Str ''Bob'', lastName = Undefined, email = Undefined,
            age = Undefined, bio = Undefined, id' = Num 0\<rparr>]"
    by (simp add: getUsers_def ownPropertyOrder_def isArrayIndex_0_1 digits_val_0_1)
  show ?thesis
    unfolding s userSearchGet_def
    by (simp add: u lower_zz search_match_def lower_Bob includes_js_sublist sub_zz)
qed

text \<open>
  Claim C8, amended: for every store state in which every record has a string as first
  name and a string as last name, a search that matches no record is answered with status
  404, an empty list and the message \<open>404 - No users found.\<close>, and a search that matches
  at least one record with status 200 and the list of the matches.
\<close>

theorem search_no_match_is_404:
  "names_inv s \<Longrightarrow>
   (search_spec q s = [] \<longrightarrow>
      userSearchGet (QString q) s =
        Inr (Render 404 ''searchResults''
               \<lparr>title = ''Search results'', users = Some [], user = None, errors = None,
                message = Some ''404 - No users found.''\<rparr>))
   \<and> (search_spec q s \<noteq> [] \<longrightarrow>
      userSearchGet (QString q) s =
        Inr (Render 200 ''searchResults''
               \<lparr>title = ''Search results'', users = Some (search_spec q s), user = None,
                errors = None, message = None\<rparr>))"
  using userSearchGet_names[of s q]
  by simp

theorem search_no_match_is_404_witness:
  "names_inv
     (addUser \<lparr>firstName = Str ''Bob'', lastName = Str ''Jones'',
        email = Str ''bob@example.org'', age = Undefined, bio = Undefined\<rparr>
       (addUser \<lparr>firstName = Str ''Anna'', lastName = Str ''Smith'',
          email = Str ''anna@example.org'', age = Undefined, bio = Undefined\<rparr> constructor))
   \<and> userSearchGet (QString ''zz'')
         (addUser \<lparr>firstName = Str ''Bob'', lastName = Str ''Jones'',
            email = Str ''bob@example.org'', age = Undefined, bio = Undefined\<rparr>
           (addUser \<lparr>firstName = Str ''Anna'', lastName = Str ''Smith'',
              email = Str ''anna@example.org'', age = Undefined, bio = Undefined\<rparr>
             constructor)) =
       Inr (Render 404 ''searchResults''
              \<lparr>title = ''Search results'', users = Some [], user = None, errors = None,
               message = Some ''404 - No users found.''\<rparr>)
   \<and> userSearchGet (QString ''an'')
         (addUser \<lparr>firstName = Str ''Bob'', lastName = Str ''Jones'',
            email = Str ''bob@example.org'', age = Undefined, bio = Undefined\<rparr>
           (addUser \<lparr>firstName = Str ''Anna'', lastName = Str ''Smith'',
              email = Str ''anna@example.org'', age = Undefined, bio = Undefined\<rparr>
             constructor)) =
       Inr (Render 200 ''searchResults''
              \<lparr>title = ''Search results'',
               users = Some [\<lparr>firstName = Str ''Anna'', lastName = Str ''Smith'',
                  email = Str ''anna@example.org'', age = Undefined, bio = Undefined,
                  id' = Num 0\<rparr>],
               user = None, errors = None, message = None\<rparr>)"
proof -
  let ?S = "addUser \<lparr>firstName = Str ''Bob'', lastName = Str ''Jones'',
        email = Str ''bob@example.org'', age = Undefined, bio = Undefined\<rparr>
       (addUser \<lparr>firstName = Str ''Anna'', lastName = Str ''Smith'',
          email = Str ''anna@example.org'', age = Undefined, bio = Undefined\<rparr> constructor)"
  note h = names_Anna_Bob
  have e: "search_spec ''an'' ?S =
      [\<lparr>firstName = Str ''Anna'', lastName = Str ''Smith'',
         email = Str ''anna@example.org'', age = Undefined, bio = Undefined, id' = Num 0\<rparr>]"
    by (simp only: Anna_Bob_store search_an)
  have z: "search_spec ''zz'' ?S = []"
    by (simp only: Anna_Bob_store search_zz)
  from search_no_match_is_404[OF h, of "''zz''"] search_no_match_is_404[OF h, of "''an''"] h
  show ?thesis
    by (simp only: e z; simp)
qed

text \<open>
  Claim C9 says that for every id \<open>delete(id)\<close> followed by \<open>get(id)\<close> returns
  absent. \<open>getUser\<close> reads \<open>this.storage[id]\<close>, which also finds what the dictionary
  inherits, while \<open>deleteUser\<close> and \<open>getUsers\<close> see own properties only: for the id
  \<open>toString\<close>, on the empty store, the lookup after the deletion returns the function
  \<open>Object.prototype.toString\<close> although no record is listed. For the ids the store
  assigns the claim holds (\<open>getUser_deleteUser_decimal\<close>), and deleting twice equals
  deleting once (\<open>deleteUser_twice\<close>).
\<close>

theorem delete_then_get_toString:
  "getUser (Str ''toString'') (deleteUser (Str ''toString'') constructor) = Function ''toString''
   \<and> getUsers (deleteUser (Str ''toString'') constructor) = []"
  by (simp add: getUser_def deleteUser_def storage_get_def constructor_def
      objectPrototype_get_def objectPrototype_names_def getUsers_def ownPropertyOrder_def)

text \<open>
  Claim C10: when the query parameter \<open>name\<close> is absent, the search handler produces
  no response: it throws a TypeError, whatever the store holds, and the router hands the
  exception on instead of a search result.
\<close>

theorem search_without_name_throws:
  "userSearchGet QAbsent s = Inl TypeError \<and>
   dispatch isEmail usersRouter_part_000
     \<lparr>req_method = GET, req_path = [''search''], req_body = b, req_query_name = QAbsent\<rparr> s =
   (Threw TypeError, s)"
  by (simp add: userSearchGet_QAbsent dispatch_search_QAbsent)

end
